theory Spec2Isabelle
  imports Complex_Main "HOL-Library.Sublist"
begin

section \<open>Text primitives of the Python runtime\<close>

text \<open>
  Messages, names and queries are Python \<open>str\<close> values.  They are modelled as
  \<open>string\<close>, read as ASCII text: one \<open>char\<close> is one code point below 128.  The
  character classes below are the ASCII part of what \<open>str.lower\<close>, \<open>str.isspace\<close>
  (used by \<open>strip\<close> and \<open>split\<close>) and the \<open>re\<close> classes \<open>\d\<close>, \<open>\s\<close>, \<open>\w\<close>
  accept; Unicode case mapping and non-ASCII digits or blanks are outside the model.
\<close>

definition upper_letters :: string where
  "upper_letters = ''ABCDEFGHIJKLMNOPQRSTUVWXYZ''"

definition lower_letters :: string where
  "lower_letters = ''abcdefghijklmnopqrstuvwxyz''"

definition digit_chars :: string where
  "digit_chars = ''0123456789''"

definition lower_char :: "char \<Rightarrow> char" where
  "lower_char c = (case map_of (zip upper_letters lower_letters) c of Some d \<Rightarrow> d | None \<Rightarrow> c)"

definition lower :: "string \<Rightarrow> string" where
  "lower s = map lower_char s"

definition is_digit :: "char \<Rightarrow> bool" where
  "is_digit c = (c \<in> set digit_chars)"

definition is_space :: "char \<Rightarrow> bool" where
  "is_space c = (c \<in> set [CHR 0x09, CHR 0x0A, CHR 0x0B, CHR 0x0C, CHR 0x0D,
                             CHR 0x1C, CHR 0x1D, CHR 0x1E, CHR 0x1F, CHR 0x20])"

definition is_word :: "char \<Rightarrow> bool" where
  "is_word c = (c \<in> set (lower_letters @ upper_letters @ digit_chars @ ''_''))"

definition is_alpha :: "char \<Rightarrow> bool" where
  "is_alpha c = (c \<in> set (lower_letters @ upper_letters))"

text \<open>Python's \<open>needle in haystack\<close> on strings: \<open>needle\<close> occurs as a contiguous run.\<close>

fun str_in :: "string \<Rightarrow> string \<Rightarrow> bool" where
  "str_in needle [] = (needle = [])"
| "str_in needle (c # cs) = (prefix needle (c # cs) \<or> str_in needle cs)"

text \<open>\<open>str.strip()\<close>: blanks removed at both ends.\<close>

definition strip :: "string \<Rightarrow> string" where
  "strip s = rev (dropWhile is_space (rev (dropWhile is_space s)))"

text \<open>\<open>str.split()\<close> without argument: the maximal runs of non-blank characters.\<close>

function split_ws :: "string \<Rightarrow> string list" where
  "split_ws [] = []"
| "split_ws (c # cs) =
     (if is_space c then split_ws cs
      else takeWhile (\<lambda>x. \<not> is_space x) (c # cs) # split_ws (dropWhile (\<lambda>x. \<not> is_space x) cs))"
  by pat_completeness auto
termination
  by (relation "measure length") (auto simp: less_Suc_eq_le length_dropWhile_le)

text \<open>\<open>re.findall(r'\d+', s)\<close>: the maximal runs of decimal digits, left to right.\<close>

function findall_digits :: "string \<Rightarrow> string list" where
  "findall_digits [] = []"
| "findall_digits (c # cs) =
     (if is_digit c
      then takeWhile is_digit (c # cs) # findall_digits (dropWhile is_digit cs)
      else findall_digits cs)"
  by pat_completeness auto
termination
  by (relation "measure length") (auto simp: less_Suc_eq_le length_dropWhile_le)

text \<open>
  \<open>int(s)\<close> on a run of decimal digits.  (Recent interpreters refuse digit strings
  longer than a configurable bound, 4300 by default; that bound is not modelled.)
\<close>

definition digit_val :: "char \<Rightarrow> int" where
  "digit_val c = (case map_of (zip digit_chars [0, 1, 2, 3, 4, 5, 6, 7, 8, 9]) c of
                    Some v \<Rightarrow> v | None \<Rightarrow> 0)"

definition py_int :: "string \<Rightarrow> int" where
  "py_int ds = foldl (\<lambda>acc c. 10 * acc + digit_val c) 0 ds"

section \<open>Entity extractor: quantities (\<open>chatbot.py\<close>, \<open>extract_quantity\<close>)\<close>

definition number_words :: "(string \<times> int) list" where
  "number_words =
     [(''one'', 1), (''two'', 2), (''three'', 3), (''four'', 4), (''five'', 5),
      (''six'', 6), (''seven'', 7), (''eight'', 8), (''nine'', 9), (''ten'', 10)]"

text \<open>The loop over \<open>number_words.items()\<close>, returning at the first word found.\<close>

fun scan_number_words :: "(string \<times> int) list \<Rightarrow> string \<Rightarrow> int option" where
  "scan_number_words [] message_lower = None"
| "scan_number_words ((word, num) # rest) message_lower =
     (if str_in word message_lower then Some num else scan_number_words rest message_lower)"

definition extract_quantity :: "string \<Rightarrow> int" where
  "extract_quantity message =
     (case scan_number_words number_words (lower message) of
        Some num \<Rightarrow> num
      | None \<Rightarrow>
          (case findall_digits message of
             n # _ \<Rightarrow> py_int n
           | [] \<Rightarrow> 1))"


subsection \<open>The specification's reading of quantity extraction\<close>

text \<open>
  The specification describes the quantity as: the value of the first number word (in
  table order) found in the lower-cased message; otherwise the integer parsed from the
  first run of decimal digits; otherwise 1.  The definitions below follow these words,
  independently of the loop above: \<open>sublist\<close> is the library's contiguous-sublist
  relation and \<open>decimal_value\<close> is the positional value of a digit string.
\<close>

definition decimal_value :: "string \<Rightarrow> int" where
  "decimal_value ds = (\<Sum>i<length ds. digit_val (ds ! i) * 10 ^ (length ds - 1 - i))"

definition first_digit_run :: "string \<Rightarrow> string option" where
  "first_digit_run m =
     (case dropWhile (\<lambda>c. \<not> is_digit c) m of [] \<Rightarrow> None | c # cs \<Rightarrow> Some (takeWhile is_digit (c # cs)))"

definition quantity_spec :: "string \<Rightarrow> int" where
  "quantity_spec m =
     (case find (\<lambda>(w, v). sublist w (lower m)) number_words of
        Some (w, v) \<Rightarrow> v
      | None \<Rightarrow> (case first_digit_run m of Some ds \<Rightarrow> decimal_value ds | None \<Rightarrow> 1))"

text \<open>
  A number word is \<^emph>\<open>embedded in a longer word\<close> of a text when one of its
  occurrences has a letter directly before or directly after it.
\<close>

fun embedded_from :: "bool \<Rightarrow> string \<Rightarrow> string \<Rightarrow> bool" where
  "embedded_from prev_alpha w [] = False"
| "embedded_from prev_alpha w (c # cs) =
     ((prefix w (c # cs) \<and>
        (prev_alpha \<or> (case drop (length w) (c # cs) of [] \<Rightarrow> False | d # _ \<Rightarrow> is_alpha d)))
      \<or> embedded_from (is_alpha c) w cs)"

definition embedded_in_word :: "string \<Rightarrow> string \<Rightarrow> bool" where
  "embedded_in_word w s = embedded_from False w s"


section \<open>Regular expressions of the intent table\<close>

text \<open>
  The intent patterns are Python \<open>re\<close> patterns used with \<open>re.search\<close> and
  \<open>re.IGNORECASE\<close>.  Only whether a pattern matches somewhere is observed, so a
  pattern is modelled by the set of ways it can match at a position: \<open>rx_match r st\<close>
  lists every state reachable by matching \<open>r\<close> from state \<open>st\<close>.  A state is the
  rest of the text together with the fact whether the character just before it is a
  word character (what \<open>\b\<close> looks at).  The constructors are the operators that occur
  in the table: literals, \<open>.*\<close> and \<open>\s*\<close>, \<open>?\<close>, \<open>\b\<close>, sequence, alternation and the
  negative look-ahead \<open>(?!...)\<close>.
\<close>

datatype cclass = AnyChar | Whitespace

datatype rx =
    Lit string
  | Star cclass
  | Opt rx
  | WordB
  | Cat "rx list"
  | Alt "rx list"
  | NotAhead rx

type_synonym rx_state = "bool \<times> string"

fun in_class :: "cclass \<Rightarrow> char \<Rightarrow> bool" where
  "in_class AnyChar c = (c \<noteq> CHR 0x0A)"
| "in_class Whitespace c = is_space c"

fun star_class :: "cclass \<Rightarrow> rx_state \<Rightarrow> rx_state list" where
  "star_class k (p, []) = [(p, [])]"
| "star_class k (p, c # cs) =
     (p, c # cs) # (if in_class k c then star_class k (is_word c, cs) else [])"

fun rx_match :: "rx \<Rightarrow> rx_state \<Rightarrow> rx_state list" where
  "rx_match (Lit s) (p, t) =
     (if length s \<le> length t \<and> lower (take (length s) t) = lower s
      then [(if s = [] then p else is_word (t ! (length s - 1)), drop (length s) t)]
      else [])"
| "rx_match (Star k) st = star_class k st"
| "rx_match (Opt r) st = st # rx_match r st"
| "rx_match WordB (p, t) =
     (if p \<noteq> (case t of [] \<Rightarrow> False | c # _ \<Rightarrow> is_word c) then [(p, t)] else [])"
| "rx_match (Cat []) st = [st]"
| "rx_match (Cat (r # rs)) st = concat (map (rx_match (Cat rs)) (rx_match r st))"
| "rx_match (Alt []) st = []"
| "rx_match (Alt (r # rs)) st = rx_match r st @ rx_match (Alt rs) st"
| "rx_match (NotAhead r) st = (if rx_match r st = [] then [st] else [])"

text \<open>\<open>re.search\<close>: the pattern matches from some position of the text.\<close>

fun search_from :: "rx \<Rightarrow> bool \<Rightarrow> string \<Rightarrow> bool" where
  "search_from r p [] = (rx_match r (p, []) \<noteq> [])"
| "search_from r p (c # cs) = (rx_match r (p, c # cs) \<noteq> [] \<or> search_from r (is_word c) cs)"

definition re_search :: "rx \<Rightarrow> string \<Rightarrow> bool" where
  "re_search r s = search_from r False s"

text \<open>Shorthands for the shapes the table uses.\<close>

definition word_group :: "rx list \<Rightarrow> rx" where
  \<comment> \<open>\<open>\b(a|b|...)\b\<close>\<close>
  "word_group alts = Cat [WordB, Alt alts, WordB]"

fun gap_parts :: "string list \<Rightarrow> rx list" where
  "gap_parts [] = []"
| "gap_parts [w] = [Lit w]"
| "gap_parts (w # ws) = Lit w # Star AnyChar # gap_parts ws"

definition gap :: "string list \<Rightarrow> rx" where
  \<comment> \<open>\<open>a.*b.*c\<close>\<close>
  "gap ws = Cat (gap_parts ws)"

definition spaced :: "string \<Rightarrow> rx \<Rightarrow> rx" where
  \<comment> \<open>\<open>a\s*r\<close>\<close>
  "spaced a r = Cat [Lit a, Star Whitespace, r]"

section \<open>Intent classifier (\<open>chatbot.py\<close>, \<open>INTENT_PATTERNS\<close> and \<open>classify_intent\<close>)\<close>

datatype intent =
    GREETING | MENU_QUERY | CATEGORY_QUERY | ITEM_DETAILS | TRACK_ORDER | CONFIRM_ORDER
  | CANCEL_ORDER | ORDER_INTENT | SUPPORT | PERSONA_QUERY | KB_QUERY | UNKNOWN

text \<open>The dictionary, in its insertion order (the order \<open>items()\<close> iterates in).\<close>

definition INTENT_PATTERNS :: "(intent \<times> rx list) list" where
  "INTENT_PATTERNS =
   [(GREETING,
       [word_group [Lit ''hi'', Lit ''hello'', Lit ''hey'',
          spaced ''good'' (Alt [Lit ''morning'', Lit ''afternoon'', Lit ''evening'']),
          Lit ''greetings'']]),
    (MENU_QUERY,
       [word_group [Lit ''menu'', gap [''show'', ''menu''], gap [''what'', ''have''],
          gap [''what'', ''offer''], gap [''list'', ''items''], gap [''food'', ''list''],
          Lit ''available'', Lit ''options'']]),
    (CATEGORY_QUERY,
       [word_group [Lit ''pizza'', Lit ''drink'', Lit ''dessert'', Lit ''side'',
          Lit ''appetizer'', Lit ''beverage'', Lit ''category'']]),
    (ITEM_DETAILS,
       [word_group [gap [''tell'', ''about''], Lit ''describe'', gap [''what'', ''is''],
          Lit ''details'', Lit ''ingredients'', gap [''info'', ''about'']]]),
    (TRACK_ORDER,
       [word_group [Lit ''track'',
          Cat [Lit ''where'', Star AnyChar, Alt [Lit ''is'', Lit ''my'']],
          spaced ''order'' (Alt [Lit ''status'', Lit ''#'', Lit ''number'']),
          gap [''status'', ''order''], spaced ''how'' (Lit ''long''),
          spaced ''my'' (Lit ''order'')]]),
    (CONFIRM_ORDER,
       [word_group [Lit ''yes'', Lit ''confirm'', Lit ''proceed'', gap [''place'', ''order''],
          spaced ''go'' (Lit ''ahead''), Lit ''sure'', Lit ''okay'', Lit ''ok'', Lit ''yep'',
          Lit ''yup'']]),
    (CANCEL_ORDER,
       [word_group [Lit ''cancel'', Lit ''remove'', Lit ''delete'',
          spaced ''never'' (Lit ''mind''), spaced ''forget'' (Lit ''it''),
          Cat [Lit ''don'', Opt (Lit [CHR 0x27]), Lit ''t'', Star Whitespace, Lit ''want'']]]),
    (ORDER_INTENT,
       [word_group [Lit ''want'',
          Cat [Lit ''i'', Opt (Lit [CHR 0x27]), Lit ''d'', Star Whitespace, Lit ''like''],
          spaced ''get'' (Lit ''me''), spaced ''give'' (Lit ''me''), Lit ''buy'',
          Lit ''purchase'', gap [''add'', ''cart'']],
        Cat [WordB, Lit ''order'', WordB,
          NotAhead (Cat [Star Whitespace, Alt [Lit ''status'', Lit ''#'', Lit ''number'']])]]),
    (SUPPORT,
       [word_group [Lit ''help'', Lit ''support'', Lit ''problem'', Lit ''issue'',
          Lit ''complaint'', gap [''speak'', ''human''], Lit ''manager'', Lit ''wrong'']]),
    (PERSONA_QUERY,
       [word_group [gap [''who'', ''are'', ''you''],
          Cat [Lit ''are'', Star AnyChar, Lit ''you'', Star AnyChar,
               Alt [Lit ''real'', Lit ''ai'', Lit ''bot'', Lit ''human'']],
          gap [''what'', ''can'', ''you'', ''do''], gap [''your'', ''name''],
          gap [''do'', ''you'', ''eat'']]]),
    (KB_QUERY,
       [word_group [Lit ''allergy'', Lit ''allergen'', Lit ''gluten'', Lit ''nutrition'',
          Lit ''calorie'', Lit ''ingredient'', Lit ''policy'', Lit ''refund'',
          gap [''delivery'', ''time''], Lit ''hours'', Lit ''open'', Lit ''contact'',
          Lit ''phone'', Lit ''email'', Lit ''promo'', Lit ''deal'', Lit ''discount'',
          Lit ''coupon'', Lit ''loyalty'', Lit ''reward'', Lit ''custom'', Lit ''modify'',
          Lit ''topping'', Lit ''history'', Lit ''origin'', Lit ''fact'', Lit ''trivia'',
          Lit ''dough'', Lit ''rise'', Lit ''yeast'', Lit ''science'', Lit ''reaction'',
          Lit ''oven'', Lit ''temp'', Lit ''pineapple'', gap [''deep'', ''dish''],
          gap [''thin'', ''crust'']]])]"

text \<open>The inner loop over one category's patterns and the outer loop over the table.\<close>

fun any_pattern :: "rx list \<Rightarrow> string \<Rightarrow> bool" where
  "any_pattern [] message_lower = False"
| "any_pattern (pattern # patterns) message_lower =
     (if re_search pattern message_lower then True else any_pattern patterns message_lower)"

fun classify_loop :: "(intent \<times> rx list) list \<Rightarrow> string \<Rightarrow> intent" where
  "classify_loop [] message_lower = UNKNOWN"
| "classify_loop ((intent, patterns) # rest) message_lower =
     (if any_pattern patterns message_lower then intent else classify_loop rest message_lower)"

definition classify_intent :: "string \<Rightarrow> intent" where
  "classify_intent message = classify_loop INTENT_PATTERNS (strip (lower message))"


section \<open>Knowledge store and retrieval (\<open>knowledge_base.py\<close>)\<close>

text \<open>
  A knowledge entry is the dictionary built by \<open>add_entry\<close>; its keys are the fields of
  the record (\<open>entry_id\<close> is the key \<open>id\<close>).  During a search an entry is copied with
  one more key, the score (\<open>{**entry, "_score": score}\<close>): the record extension
  \<open>scored_entry\<close>.  Time stamps are the ISO strings produced by the clock; the clock
  reading is a parameter of the operations that consult it.
\<close>

record kb_entry =
  entry_id :: int
  category :: string
  title :: string
  content :: string
  tags :: "string list"
  version :: int
  created_at :: string
  updated_at :: string

record scored_entry = kb_entry +
  score :: int

record knowledge_base =
  entries :: "kb_entry list"
  id_counter :: int

definition with_score :: "kb_entry \<Rightarrow> int \<Rightarrow> scored_entry" where
  "with_score entry s = kb_entry.extend entry (scored_entry.fields s)"

definition without_score :: "scored_entry \<Rightarrow> kb_entry" where
  "without_score r = kb_entry.truncate r"

text \<open>Truth value of an optional string or list argument (\<open>if title:\<close>, \<open>if tags:\<close>).\<close>

fun truthy :: "'a list option \<Rightarrow> bool" where
  "truthy None = False"
| "truthy (Some v) = (v \<noteq> [])"

text \<open>\<open>xs[:n]\<close> for an integer \<open>n\<close>; a negative \<open>n\<close> counts from the end.\<close>

definition slice_to :: "'a list \<Rightarrow> int \<Rightarrow> 'a list" where
  "slice_to xs n = (if 0 \<le> n then take (nat n) xs else take (nat (int (length xs) + n)) xs)"

text \<open>The relevance score of one entry, with the three loops over the set of query words.\<close>

definition entry_score :: "string \<Rightarrow> kb_entry \<Rightarrow> int" where
  "entry_score query entry =
     (let query_lower = lower query;
          query_words = remdups (split_ws query_lower);
          title_lower = lower (title entry);
          content_lower = lower (content entry);
          tags_lower = map lower (tags entry);
          s1 = (if str_in query_lower title_lower then 0 + 50 else 0);
          s2 = (if str_in query_lower content_lower then s1 + 30 else s1);
          s3 = foldl (\<lambda>s word. if word \<in> set tags_lower then s + 20 else s) s2 query_words;
          s4 = foldl (\<lambda>s word. if str_in word title_lower then s + 10 else s) s3 query_words;
          s5 = foldl (\<lambda>s word. if str_in word content_lower then s + 5 else s) s4 query_words
      in s5)"

definition category_excluded :: "string option \<Rightarrow> kb_entry \<Rightarrow> bool" where
  \<comment> \<open>\<open>category and entry["category"] != category\<close>\<close>
  "category_excluded cat entry = (truthy cat \<and> Some (category entry) \<noteq> cat)"

fun search_loop :: "string \<Rightarrow> string option \<Rightarrow> kb_entry list \<Rightarrow> scored_entry list" where
  "search_loop query cat [] = []"
| "search_loop query cat (entry # rest) =
     (if category_excluded cat entry then search_loop query cat rest
      else if 0 < entry_score query entry
           then with_score entry (entry_score query entry) # search_loop query cat rest
           else search_loop query cat rest)"

text \<open>
  \<open>results.sort(key=..., reverse=True)\<close> is Python's stable sort, descending by key:
  the library's stable \<open>sort_key\<close> on the negated score.
\<close>

definition search :: "knowledge_base \<Rightarrow> string \<Rightarrow> string option \<Rightarrow> int \<Rightarrow> kb_entry list" where
  "search kb query cat limit =
     (let results = search_loop query cat (entries kb);
          results = sort_key (\<lambda>x. - score x) results
      in map without_score (slice_to results limit))"

text \<open>\<open>add_entry\<close>; the clock is read twice, once for each time stamp.\<close>

definition add_entry ::
  "knowledge_base \<Rightarrow> string \<Rightarrow> string \<Rightarrow> string \<Rightarrow> string list option \<Rightarrow> string \<Rightarrow> string
     \<Rightarrow> kb_entry \<times> knowledge_base" where
  "add_entry kb cat ttl cnt tgs now_created now_updated =
     (let n = id_counter kb + 1;
          entry = \<lparr>entry_id = n, category = cat, title = ttl, content = cnt,
                   tags = (if truthy tgs then the tgs else []), version = 1,
                   created_at = now_created, updated_at = now_updated\<rparr>
      in (entry, kb\<lparr>entries := entries kb @ [entry], id_counter := n\<rparr>))"

text \<open>
  \<open>update_entry\<close>: the loop stops at the first entry with the identifier, changes that
  entry in place and returns it; \<open>None\<close> when the loop runs to its end.
\<close>

definition apply_update ::
  "kb_entry \<Rightarrow> string option \<Rightarrow> string option \<Rightarrow> string list option \<Rightarrow> string \<Rightarrow> kb_entry" where
  "apply_update entry ttl cnt tgs now =
     (let e1 = (if truthy ttl then entry\<lparr>title := the ttl\<rparr> else entry);
          e2 = (if truthy cnt then e1\<lparr>content := the cnt\<rparr> else e1);
          e3 = (if truthy tgs then e2\<lparr>tags := the tgs\<rparr> else e2)
      in e3\<lparr>version := version e3 + 1, updated_at := now\<rparr>)"

fun update_loop ::
  "kb_entry list \<Rightarrow> int \<Rightarrow> string option \<Rightarrow> string option \<Rightarrow> string list option \<Rightarrow> string
     \<Rightarrow> kb_entry option \<times> kb_entry list" where
  "update_loop [] eid ttl cnt tgs now = (None, [])"
| "update_loop (entry # rest) eid ttl cnt tgs now =
     (if entry_id entry = eid
      then (Some (apply_update entry ttl cnt tgs now), apply_update entry ttl cnt tgs now # rest)
      else (case update_loop rest eid ttl cnt tgs now of (r, rest') \<Rightarrow> (r, entry # rest')))"

definition update_entry ::
  "knowledge_base \<Rightarrow> int \<Rightarrow> string option \<Rightarrow> string option \<Rightarrow> string list option \<Rightarrow> string
     \<Rightarrow> kb_entry option \<times> knowledge_base" where
  "update_entry kb eid ttl cnt tgs now =
     (case update_loop (entries kb) eid ttl cnt tgs now of
        (r, es) \<Rightarrow> (r, kb\<lparr>entries := es\<rparr>))"

text \<open>
  The entries a search ranks: those that pass the category filter and score above 0.
\<close>

definition candidate :: "string \<Rightarrow> string option \<Rightarrow> kb_entry \<Rightarrow> bool" where
  "candidate q cat e = (\<not> category_excluded cat e \<and> 0 < entry_score q e)"

text \<open>
  A small corpus for concrete evaluations: the store after \<open>add_entry\<close> has run on the
  first three entries of the seed list, every clock reading being \<open>t0\<close>.
\<close>

definition seed_three :: "(string \<times> string \<times> string \<times> string list) list" where
  "seed_three =
     [(''ingredients'', ''Margherita Pizza Ingredients'',
       ''Our Margherita Pizza is made with San Marzano tomato sauce, fresh mozzarella cheese, extra virgin olive oil, and fresh basil leaves on hand-tossed dough.'',
       [''margherita'', ''pizza'', ''cheese'', ''basil'', ''tomato'', ''vegetarian'']),
      (''ingredients'', ''Pepperoni Pizza Ingredients'',
       ''Our Pepperoni Pizza features premium beef and pork pepperoni, house-made tomato sauce, and a generous blend of mozzarella and provolone cheeses. Over 40 slices of pepperoni per pizza!'',
       [''pepperoni'', ''pizza'', ''meat'', ''cheese'']),
      (''ingredients'', ''BBQ Chicken Pizza Ingredients'',
       ''Our BBQ Chicken Pizza is topped with grilled chicken breast, tangy BBQ sauce, red onions, fresh cilantro, and a blend of mozzarella and smoked gouda cheese.'',
       [''bbq'', ''chicken'', ''pizza'', ''onion'', ''cilantro''])]"

definition kb_three :: knowledge_base where
  "kb_three =
     foldl (\<lambda>kb (c, t, n, g). snd (add_entry kb c t n (Some g) ''t0'' ''t0''))
       \<lparr>entries = [], id_counter = 0\<rparr> seed_three"


section \<open>Entity extractor: menu items (\<open>chatbot.py\<close>, \<open>extract_menu_items\<close>)\<close>

text \<open>
  A menu item is the dictionary \<open>main.py\<close> builds for each row of the menu table
  (\<open>item_id\<close> is the key \<open>id\<close>, \<open>item_category\<close> the key \<open>category\<close>).  Prices are
  Python floats; they are modelled as real numbers, so the rounding of floating-point
  arithmetic is outside the model.
\<close>

record menu_item =
  item_id :: int
  item :: string
  price :: real
  item_category :: string
  description :: "string option"
  ingredients :: "string option"

text \<open>\<open>re.sub(r'\s+', ' ', s)\<close>: every maximal run of blanks becomes one space.\<close>

function collapse_ws :: "string \<Rightarrow> string" where
  "collapse_ws [] = []"
| "collapse_ws (c # cs) =
     (if is_space c then CHR '' '' # collapse_ws (dropWhile is_space cs)
      else c # collapse_ws cs)"
  by pat_completeness auto
termination
  by (relation "measure length") (auto simp: less_Suc_eq_le length_dropWhile_le)

definition add_once :: "menu_item \<Rightarrow> menu_item list \<Rightarrow> menu_item list" where
  \<comment> \<open>\<open>if item not in found_items: found_items.append(item)\<close>\<close>
  "add_once itm found_items = (if itm \<in> set found_items then found_items else found_items @ [itm])"

text \<open>Check 3: the loop over the words of the name, left at the first significant word found.\<close>

fun significant_word :: "string list \<Rightarrow> string \<Rightarrow> bool" where
  "significant_word [] message_normalized = False"
| "significant_word (word # rest) message_normalized =
     (if 3 < length word \<and> str_in word message_normalized then True
      else significant_word rest message_normalized)"

definition match_item :: "string \<Rightarrow> menu_item \<Rightarrow> menu_item list \<Rightarrow> menu_item list" where
  "match_item message_normalized itm found_items =
     (let item_name_lower = lower (item itm);
          item_words = split_ws item_name_lower
      in if str_in item_name_lower message_normalized then add_once itm found_items
         else
           let main_name = (case item_words of [] \<Rightarrow> [] | w # _ \<Rightarrow> w)
           in if 3 < length main_name \<and> str_in main_name message_normalized
              then add_once itm found_items
              else
                let found3 = (if significant_word item_words message_normalized
                              then add_once itm found_items else found_items)
                in (case item_words of
                      w1 # w2 # _ \<Rightarrow>
                        if str_in (w1 @ '' '' @ w2) message_normalized
                        then add_once itm found3 else found3
                    | _ \<Rightarrow> found3))"

fun extract_loop :: "string \<Rightarrow> menu_item list \<Rightarrow> menu_item list \<Rightarrow> menu_item list" where
  "extract_loop message_normalized [] found_items = found_items"
| "extract_loop message_normalized (itm # rest) found_items =
     extract_loop message_normalized rest (match_item message_normalized itm found_items)"

definition extract_menu_items :: "string \<Rightarrow> menu_item list \<Rightarrow> menu_item list" where
  "extract_menu_items message menu_items =
     extract_loop (collapse_ws (strip (lower message))) menu_items []"

section \<open>Dialogue manager (\<open>chatbot.py\<close>, \<open>process_message\<close>)\<close>

text \<open>
  The per-user context holds the cart, the last intent and two fields that no handler
  reads or writes after their creation (\<open>pending_order\<close> is \<open>None\<close>, \<open>order_history\<close> is
  the empty list; their element type is not determined by the code).  An order is the
  dictionary \<open>main.py\<close> builds from a row of the order table.
\<close>

record cart_line =
  menu_item_id :: int
  line_item :: string
  line_price :: real
  quantity :: int

record session =
  cart :: "cart_line list"
  pending_order :: "unit option"
  last_intent :: "intent option"
  order_history :: "unit list"

record order_record =
  order_id :: int
  status :: string
  total_amount :: real
  customer_phone :: "string option"
  order_created_at :: "string option"

type_synonym user_contexts = "string \<rightharpoonup> session"

text \<open>
  The returned dictionary: the response text is represented by the template that was
  chosen and the values put into it, since the wording is not part of any property here;
  \<open>action\<close> and \<open>data\<close> are as in the code.  A payload holds the values of the cart or
  the entries at the time of the call.
\<close>

datatype reply =
    PersonaAnswer kb_entry | PersonaDefault | Welcome
  | MenuText "menu_item list" "string option"
  | ItemText menu_item | ItemNotFound
  | AddedToCart "cart_line list" | AskWhatToOrder
  | OrderConfirmed "cart_line list" | CartEmpty
  | CartCleared | NothingToCancel
  | OrderStatusText order_record | OrderNotFound int | NoOrdersFound | NoOrdersYet
  | KbAnswer kb_entry "kb_entry option" | KbFallback
  | SupportText | HelpText

datatype payload =
    Items "menu_item list"
  | Category "string option"
  | Item menu_item
  | Cart "cart_line list"
  | Confirm "cart_line list" real bool
  | OrderStatus order_record
  | Entries "kb_entry list"

record chat_result =
  response :: reply
  action :: "string option"
  data :: "payload option"

definition new_session :: session where
  "new_session = \<lparr>cart = [], pending_order = None, last_intent = None, order_history = []\<rparr>"

definition get_user_context :: "user_contexts \<Rightarrow> string \<Rightarrow> session \<times> user_contexts" where
  "get_user_context user_contexts user_id =
     (case user_contexts user_id of
        None \<Rightarrow> (new_session, user_contexts(user_id \<mapsto> new_session))
      | Some context \<Rightarrow> (context, user_contexts))"

subsection \<open>Category query\<close>

definition upper_char :: "char \<Rightarrow> char" where
  "upper_char c = (case map_of (zip lower_letters upper_letters) c of Some d \<Rightarrow> d | None \<Rightarrow> c)"

definition capitalize :: "string \<Rightarrow> string" where
  "capitalize s = (case s of [] \<Rightarrow> [] | c # cs \<Rightarrow> upper_char c # lower cs)"

fun first_category :: "string list \<Rightarrow> string \<Rightarrow> string option" where
  "first_category [] message_lower = None"
| "first_category (cat # rest) message_lower =
     (if str_in cat message_lower then Some (capitalize cat) else first_category rest message_lower)"

definition category_keywords :: "string list" where
  "category_keywords = [''pizza'', ''drink'', ''dessert'', ''side'', ''appetizer'', ''beverage'']"

subsection \<open>Order intent\<close>

text \<open>
  \<open>existing["quantity"] += quantity\<close> changes the first cart line with the item's
  identifier, where it stands.
\<close>

fun bump_existing :: "int \<Rightarrow> int \<Rightarrow> cart_line list \<Rightarrow> cart_line list" where
  "bump_existing mid q [] = []"
| "bump_existing mid q (i # rest) =
     (if menu_item_id i = mid then i\<lparr>quantity := quantity i + q\<rparr> # rest
      else i # bump_existing mid q rest)"

definition add_to_cart :: "cart_line list \<Rightarrow> menu_item \<Rightarrow> int \<Rightarrow> cart_line list" where
  "add_to_cart cart_lines itm q =
     (let cart_item = \<lparr>menu_item_id = item_id itm, line_item = item itm,
                        line_price = price itm, quantity = q\<rparr>
      in case find (\<lambda>i. menu_item_id i = item_id itm) cart_lines of
           Some existing \<Rightarrow> bump_existing (item_id itm) q cart_lines
         | None \<Rightarrow> cart_lines @ [cart_item])"

fun add_all :: "cart_line list \<Rightarrow> menu_item list \<Rightarrow> int \<Rightarrow> cart_line list" where
  "add_all cart_lines [] q = cart_lines"
| "add_all cart_lines (itm # rest) q = add_all (add_to_cart cart_lines itm q) rest q"

definition handle_order_intent ::
  "string \<Rightarrow> menu_item list \<Rightarrow> session \<Rightarrow> chat_result \<times> session" where
  "handle_order_intent message menu_items context =
     (let found_items = extract_menu_items message menu_items;
          q = extract_quantity message
      in if found_items \<noteq> []
         then (let cart' = add_all (cart context) found_items q
               in (\<lparr>response = AddedToCart cart', action = Some ''add_to_cart'',
                     data = Some (Cart cart')\<rparr>,
                   context\<lparr>cart := cart'\<rparr>))
         else (\<lparr>response = AskWhatToOrder, action = None, data = None\<rparr>, context))"

subsection \<open>Confirm and cancel\<close>

definition cart_total :: "cart_line list \<Rightarrow> real" where
  \<comment> \<open>\<open>sum(i["price"] * i["quantity"] for i in cart)\<close>: from 0, left to right\<close>
  "cart_total cart_lines =
     foldl (\<lambda>acc i. acc + line_price i * of_int (quantity i)) 0 cart_lines"

definition handle_confirm_order :: "session \<Rightarrow> chat_result \<times> session" where
  "handle_confirm_order context =
     (if cart context \<noteq> []
      then (\<lparr>response = OrderConfirmed (cart context), action = Some ''confirm_order'',
              data = Some (Confirm (cart context) (cart_total (cart context)) True)\<rparr>,
            context)
      else (\<lparr>response = CartEmpty, action = None, data = None\<rparr>, context))"

definition handle_cancel_order :: "session \<Rightarrow> chat_result \<times> session" where
  "handle_cancel_order context =
     (if cart context \<noteq> []
      then (\<lparr>response = CartCleared, action = Some ''clear_cart'', data = None\<rparr>,
            context\<lparr>cart := []\<rparr>)
      else (\<lparr>response = NothingToCancel, action = None, data = None\<rparr>, context))"

subsection \<open>Order tracking\<close>

text \<open>
  \<open>re.search(r'#?(\d+)', message)\<close> followed by \<open>int(group(1))\<close>: the leftmost match
  ends with the first maximal run of digits of the message, which is group 1.
\<close>

definition search_order_id :: "string \<Rightarrow> int option" where
  "search_order_id message =
     (case findall_digits message of [] \<Rightarrow> None | n # _ \<Rightarrow> Some (py_int n))"

definition py_str :: "string option \<Rightarrow> string" where
  \<comment> \<open>\<open>str(x)\<close> of a string or \<open>None\<close>\<close>
  "py_str x = (case x of None \<Rightarrow> ''None'' | Some s \<Rightarrow> s)"

definition select_order :: "string \<Rightarrow> string \<Rightarrow> order_record list \<Rightarrow> order_record option" where
  "select_order message user_id orders =
     (case search_order_id message of
        Some oid \<Rightarrow>
          if oid \<noteq> 0 then find (\<lambda>ord. order_id ord = oid) orders
          else
            (let user_orders = filter (\<lambda>ord. py_str (customer_phone ord) = user_id) orders
             in if user_orders \<noteq> [] then Some (last user_orders)
                else (case orders of [] \<Rightarrow> None | ord # _ \<Rightarrow> Some ord))
      | None \<Rightarrow>
          (let user_orders = filter (\<lambda>ord. py_str (customer_phone ord) = user_id) orders
           in if user_orders \<noteq> [] then Some (last user_orders)
              else (case orders of [] \<Rightarrow> None | ord # _ \<Rightarrow> Some ord)))"

definition handle_track_order ::
  "string \<Rightarrow> string \<Rightarrow> order_record list option \<Rightarrow> chat_result" where
  "handle_track_order message user_id orders =
     (case orders of
        None \<Rightarrow> \<lparr>response = NoOrdersYet, action = None, data = None\<rparr>
      | Some os \<Rightarrow>
          if os = [] then \<lparr>response = NoOrdersYet, action = None, data = None\<rparr>
          else
            (case select_order message user_id os of
               Some target_order \<Rightarrow>
                 \<lparr>response = OrderStatusText target_order, action = Some ''show_order_status'',
                   data = Some (OrderStatus target_order)\<rparr>
             | None \<Rightarrow>
                 (case search_order_id message of
                    Some oid \<Rightarrow>
                      if oid \<noteq> 0
                      then \<lparr>response = OrderNotFound oid, action = None, data = None\<rparr>
                      else \<lparr>response = NoOrdersFound, action = None, data = None\<rparr>
                  | None \<Rightarrow> \<lparr>response = NoOrdersFound, action = None, data = None\<rparr>)))"

subsection \<open>Dispatch\<close>

definition handle ::
  "intent \<Rightarrow> knowledge_base \<Rightarrow> string \<Rightarrow> string \<Rightarrow> menu_item list \<Rightarrow> order_record list option
     \<Rightarrow> session \<Rightarrow> chat_result \<times> session" where
  "handle intent kb message user_id menu_items orders context =
     (case intent of
        PERSONA_QUERY \<Rightarrow>
          (case search kb message (Some ''persona'') 1 of
             r # _ \<Rightarrow> (\<lparr>response = PersonaAnswer r, action = Some ''persona_response'', data = None\<rparr>, context)
           | [] \<Rightarrow> (\<lparr>response = PersonaDefault, action = Some ''persona_response'', data = None\<rparr>, context))
      | GREETING \<Rightarrow> (\<lparr>response = Welcome, action = None, data = None\<rparr>, context)
      | MENU_QUERY \<Rightarrow>
          (\<lparr>response = MenuText menu_items None, action = Some ''show_menu'',
             data = Some (Items menu_items)\<rparr>, context)
      | CATEGORY_QUERY \<Rightarrow>
          (let cat = first_category category_keywords (lower message)
           in (\<lparr>response = MenuText menu_items cat, action = Some ''show_category'',
                 data = Some (Category cat)\<rparr>, context))
      | ITEM_DETAILS \<Rightarrow>
          (case extract_menu_items message menu_items of
             itm # _ \<Rightarrow> (\<lparr>response = ItemText itm, action = Some ''show_item'', data = Some (Item itm)\<rparr>, context)
           | [] \<Rightarrow> (\<lparr>response = ItemNotFound, action = None, data = None\<rparr>, context))
      | ORDER_INTENT \<Rightarrow> handle_order_intent message menu_items context
      | CONFIRM_ORDER \<Rightarrow> handle_confirm_order context
      | CANCEL_ORDER \<Rightarrow> handle_cancel_order context
      | TRACK_ORDER \<Rightarrow> (handle_track_order message user_id orders, context)
      | KB_QUERY \<Rightarrow>
          (case search kb message None 2 of
             r # rs \<Rightarrow>
               (\<lparr>response = KbAnswer r (case rs of [] \<Rightarrow> None | r2 # _ \<Rightarrow> Some r2),
                  action = Some ''kb_response'', data = Some (Entries (r # rs))\<rparr>, context)
           | [] \<Rightarrow> (\<lparr>response = KbFallback, action = Some ''kb_fallback'', data = None\<rparr>, context))
      | SUPPORT \<Rightarrow> (\<lparr>response = SupportText, action = Some ''support'', data = None\<rparr>, context)
      | UNKNOWN \<Rightarrow> (\<lparr>response = HelpText, action = None, data = None\<rparr>, context))"

definition process_message ::
  "user_contexts \<Rightarrow> knowledge_base \<Rightarrow> string \<Rightarrow> string \<Rightarrow> menu_item list
     \<Rightarrow> order_record list option \<Rightarrow> chat_result \<times> user_contexts" where
  "process_message user_contexts kb message user_id menu_items orders =
     (case get_user_context user_contexts user_id of
        (context0, contexts) \<Rightarrow>
          (let intent = classify_intent message;
               context = context0\<lparr>last_intent := Some intent\<rparr>
           in case handle intent kb message user_id menu_items orders context of
                (result, context') \<Rightarrow> (result, contexts(user_id \<mapsto> context'))))"

subsection \<open>The caller's part in the session (\<open>main.py\<close>, \<open>chat\<close>)\<close>

text \<open>
  \<open>chat\<close> passes the message on and, after a \<open>confirm_order\<close> outcome with a non-empty
  cart, stores the order and replaces the user's cart by the empty list.  The model
  gives the session map that \<open>chat\<close> leaves behind; the database and the HTTP
  response are not part of it.  An absent or empty user identifier is \<open>anonymous\<close>.
\<close>

definition payload_cart :: "payload \<Rightarrow> cart_line list" where
  \<comment> \<open>\<open>result["data"].get("cart", [])\<close>\<close>
  "payload_cart d =
     (case d of Cart c \<Rightarrow> c | Confirm c amount flag \<Rightarrow> c | _ \<Rightarrow> [])"

definition chat ::
  "user_contexts \<Rightarrow> knowledge_base \<Rightarrow> string \<Rightarrow> string option \<Rightarrow> menu_item list
     \<Rightarrow> order_record list \<Rightarrow> user_contexts" where
  "chat user_contexts kb message uid menu_data orders_data =
     (let user_id = (if truthy uid then the uid else ''anonymous'')
      in case process_message user_contexts kb message user_id menu_data (Some orders_data) of
           (result, contexts) \<Rightarrow>
             if action result = Some ''confirm_order'' \<and> data result \<noteq> None \<and>
                payload_cart (the (data result)) \<noteq> []
             then contexts(user_id \<mapsto> (the (contexts user_id))\<lparr>cart := []\<rparr>)
             else contexts)"

inductive reachable :: "user_contexts \<Rightarrow> bool" where
  initial: "reachable Map.empty"
| message: "reachable ctxs \<Longrightarrow>
     reachable (snd (process_message ctxs kb message user_id menu_items orders))"
| chat_call: "reachable ctxs \<Longrightarrow>
     reachable (chat ctxs kb message uid menu_data orders_data)"

text \<open>Menu rows and orders for concrete evaluations (the first two rows of the seed menu).\<close>

definition margherita :: menu_item where
  "margherita = \<lparr>item_id = 1, item = ''Margherita Pizza'', price = 12.99,
     item_category = ''Pizza'',
     description = Some ''Classic tomato, fresh mozzarella, and aromatic basil leaves'',
     ingredients = Some ''San Marzano Tomato Sauce, Mozzarella di Bufala, Fresh Basil, EVOO''\<rparr>"

definition pepperoni :: menu_item where
  "pepperoni = \<lparr>item_id = 2, item = ''Pepperoni Pizza'', price = 14.99,
     item_category = ''Pizza'',
     description = Some ''Loaded with premium pepperoni and extra melted cheese'',
     ingredients = Some ''Tomato Sauce, Mozzarella, Pecorino, Spicy Pepperoni''\<rparr>"

definition order_newer :: order_record where
  "order_newer = \<lparr>order_id = 2, status = ''Pending'', total_amount = 14.99,
     customer_phone = Some ''555'', order_created_at = Some ''2024-05-02T10:00:00''\<rparr>"

definition order_older :: order_record where
  "order_older = \<lparr>order_id = 1, status = ''Delivered'', total_amount = 12.99,
     customer_phone = Some ''555'', order_created_at = Some ''2024-05-01T10:00:00''\<rparr>"

text \<open>
  The cart invariant: the lines have pairwise different item identifiers and no line has
  a negative quantity.
\<close>

definition cart_ok :: "cart_line list \<Rightarrow> bool" where
  "cart_ok c = (distinct (map menu_item_id c) \<and> (\<forall>l\<in>set c. 0 \<le> quantity l))"

definition carts_ok :: "user_contexts \<Rightarrow> bool" where
  "carts_ok ctxs = (\<forall>u s. ctxs u = Some s \<longrightarrow> cart_ok (cart s))"

text \<open>A session holding two Margherita pizzas, for concrete evaluations.\<close>

definition session_with_cart :: session where
  "session_with_cart =
     \<lparr>cart = [\<lparr>menu_item_id = 1, line_item = ''Margherita Pizza'', line_price = 12.99, quantity = 2\<rparr>],
      pending_order = None, last_intent = Some ORDER_INTENT, order_history = []\<rparr>"


section \<open>Properties of quantity extraction\<close>

lemma str_in_sublist: "str_in n h = sublist n h"
  by (induction h) (auto simp: sublist_Cons_right)

lemma scan_number_words_find:
  "scan_number_words tbl m = map_option snd (find (\<lambda>(w, v). sublist w m) tbl)"
  by (induction tbl m rule: scan_number_words.induct) (auto simp: str_in_sublist)

lemma findall_digits_Nil: "(findall_digits m = []) = (\<forall>c\<in>set m. \<not> is_digit c)"
  by (induction m rule: findall_digits.induct) auto

lemma findall_digits_hd:
  "findall_digits m = d # ds \<Longrightarrow> d = takeWhile is_digit (dropWhile (\<lambda>c. \<not> is_digit c) m)"
  by (induction m rule: findall_digits.induct) (auto split: if_splits)

lemma digit_val_range: "0 \<le> digit_val c \<and> digit_val c \<le> 9"
  by (simp add: digit_val_def digit_chars_def)

lemma digit_val_zero: "is_digit c \<Longrightarrow> (digit_val c = 0) = (c = CHR ''0'')"
  by (auto simp: digit_val_def is_digit_def digit_chars_def)

lemma horner_nonneg:
  "0 \<le> acc \<Longrightarrow> 0 \<le> foldl (\<lambda>a c. 10 * a + digit_val c) acc ds"
  by (induction ds arbitrary: acc) (simp_all add: digit_val_range)

lemma horner_zero:
  "0 \<le> acc \<Longrightarrow>
   (foldl (\<lambda>a c. 10 * a + digit_val c) acc ds = 0) = (acc = 0 \<and> (\<forall>c\<in>set ds. digit_val c = 0))"
proof (induction ds arbitrary: acc)
  case Nil
  then show ?case by simp
next
  case (Cons c ds)
  have "0 \<le> 10 * acc + digit_val c" using Cons.prems digit_val_range[of c] by simp
  from Cons.IH[OF this] have
    "(foldl (\<lambda>a c. 10 * a + digit_val c) acc (c # ds) = 0)
       = (10 * acc + digit_val c = 0 \<and> (\<forall>c\<in>set ds. digit_val c = 0))" by simp
  moreover have "(10 * acc + digit_val c = 0) = (acc = 0 \<and> digit_val c = 0)"
    using Cons.prems digit_val_range[of c] by arith
  ultimately show ?case by auto
qed

lemma py_int_snoc: "py_int (ds @ [c]) = 10 * py_int ds + digit_val c"
  by (simp add: py_int_def)

lemma py_int_decimal_value: "py_int ds = decimal_value ds"
proof (induction ds rule: rev_induct)
  case Nil
  then show ?case by (simp add: py_int_def decimal_value_def)
next
  case (snoc c ds)
  have "(\<Sum>i<length ds. digit_val ((ds @ [c]) ! i) * 10 ^ (length ds - i))
      = (\<Sum>i<length ds. 10 * (digit_val (ds ! i) * 10 ^ (length ds - 1 - i)))"
  proof (rule sum.cong)
    fix i assume "i \<in> {..<length ds}"
    then have i: "i < length ds" by simp
    then have "length ds - i = Suc (length ds - 1 - i)" by simp
    then show "digit_val ((ds @ [c]) ! i) * 10 ^ (length ds - i)
             = 10 * (digit_val (ds ! i) * 10 ^ (length ds - 1 - i))"
      using i by (simp add: nth_append)
  qed simp
  then show ?case
    using snoc.IH by (simp add: py_int_snoc decimal_value_def sum_distrib_left)
qed

lemma findall_digits_first:
  "(case findall_digits m of [] \<Rightarrow> None | d # _ \<Rightarrow> Some d) = first_digit_run m"
  by (induction m rule: findall_digits.induct) (auto simp: first_digit_run_def)

lemma first_digit_run_digits: "first_digit_run m = Some ds \<Longrightarrow> ds \<noteq> [] \<and> (\<forall>c\<in>set ds. is_digit c)"
proof -
  assume a: "first_digit_run m = Some ds"
  then obtain c cs where d: "dropWhile (\<lambda>c. \<not> is_digit c) m = c # cs" and
      ds: "ds = takeWhile is_digit (c # cs)"
    by (auto simp: first_digit_run_def split: list.splits)
  from d have "is_digit c" using hd_dropWhile[of "\<lambda>c. \<not> is_digit c" m] by simp
  with ds have "ds \<noteq> []" by simp
  moreover from ds have "\<forall>x\<in>set ds. is_digit x" by (auto dest: set_takeWhileD)
  ultimately show ?thesis by simp
qed

lemma number_words_values: "(w, v) \<in> set number_words \<Longrightarrow> 1 \<le> v"
  by (auto simp: number_words_def)

lemma extract_quantity_eq_spec: "extract_quantity m = quantity_spec m"
proof -
  have "(case findall_digits m of [] \<Rightarrow> 1 | n # _ \<Rightarrow> py_int n)
      = (case first_digit_run m of Some ds \<Rightarrow> decimal_value ds | None \<Rightarrow> 1)"
    using findall_digits_first[of m] by (auto simp: py_int_decimal_value split: list.splits option.splits)
  then show ?thesis
    by (auto simp: extract_quantity_def quantity_spec_def scan_number_words_find split: option.splits list.splits)
qed


lemma embedded_from_sublist: "embedded_from b w s \<Longrightarrow> sublist w s"
  by (induction b w s rule: embedded_from.induct) (auto simp: sublist_Cons_right)

lemma find_sorted_first:
  "sorted (map snd tbl) \<Longrightarrow> (w, v) \<in> set tbl \<Longrightarrow> P (w, v) \<Longrightarrow>
   \<exists>w' v'. find P tbl = Some (w', v') \<and> v' \<le> (v::int)"
  by (induction tbl) auto

lemma find_SomeD: "find P xs = Some x \<Longrightarrow> x \<in> set xs \<and> P x"
  by (induction xs) (auto split: if_splits)

lemma extract_quantity_nonneg: "0 \<le> extract_quantity m"
proof (cases "scan_number_words number_words (lower m)")
  case None
  then show ?thesis
    by (auto simp: extract_quantity_def py_int_def horner_nonneg split: list.splits)
next
  case (Some v)
  then obtain w where "find (\<lambda>(w, v). sublist w (lower m)) number_words = Some (w, v)"
    by (auto simp: scan_number_words_find)
  then have "(w, v) \<in> set number_words" by (auto dest: find_SomeD)
  then show ?thesis using Some number_words_values[of w v] by (simp add: extract_quantity_def)
qed

lemma extract_quantity_zero:
  "(extract_quantity m = 0) =
     (find (\<lambda>(w, v). sublist w (lower m)) number_words = None \<and>
      (\<exists>ds. first_digit_run m = Some ds \<and> set ds = {CHR ''0''}))"
proof (cases "find (\<lambda>(w, v). sublist w (lower m)) number_words")
  case None
  show ?thesis
  proof (cases "first_digit_run m")
    case N: None
    then show ?thesis using None by (simp add: extract_quantity_eq_spec quantity_spec_def)
  next
    case (Some ds)
    from first_digit_run_digits[OF Some] have ne: "ds \<noteq> []" and dg: "\<forall>c\<in>set ds. is_digit c"
      by simp_all
    have "(py_int ds = 0) = (\<forall>c\<in>set ds. digit_val c = 0)"
      unfolding py_int_def using horner_zero[of 0 ds] by simp
    also have "\<dots> = (\<forall>c\<in>set ds. c = CHR ''0'')"
      using dg digit_val_zero by auto
    also have "\<dots> = (set ds = {CHR ''0''})"
      using ne by (cases ds) auto
    finally show ?thesis
      using None Some by (simp add: extract_quantity_eq_spec quantity_spec_def py_int_decimal_value)
  qed
next
  case (Some p)
  obtain w v where p: "p = (w, v)" by (cases p)
  from Some p have "(w, v) \<in> set number_words" by (auto dest: find_SomeD)
  then have "1 \<le> v" by (rule number_words_values)
  then show ?thesis using Some p by (simp add: extract_quantity_eq_spec quantity_spec_def)
qed


text \<open>
  Claim C3, as amended.  For every message \<open>extract_quantity\<close> returns the value the
  specification describes (first number word in table order, else the first digit run
  parsed, else 1).  The result is never negative, and it is 0 exactly when no number
  word occurs and the first digit run consists of zeros only; in every other case it is
  at least 1.  The table lists the values 1..10 in order, and the three examples of the
  specification evaluate to 2, 1 and 5.
\<close>

theorem extract_quantity_refines_spec:
  "extract_quantity m = quantity_spec m \<and>
   0 \<le> extract_quantity m \<and>
   (extract_quantity m = 0) =
     (find (\<lambda>(w, v). sublist w (lower m)) number_words = None \<and>
      (\<exists>ds. first_digit_run m = Some ds \<and> set ds = {CHR ''0''})) \<and>
   map snd number_words = [1, 2, 3, 4, 5, 6, 7, 8, 9, 10] \<and>
   extract_quantity ''two pepperoni pizzas'' = 2 \<and>
   extract_quantity ''pizza'' = 1 \<and>
   extract_quantity ''order 5'' = 5"
proof -
  have "map snd number_words = [1, 2, 3, 4, 5, 6, 7, 8, 9, 10]"
    by (simp add: number_words_def)
  moreover have "extract_quantity ''two pepperoni pizzas'' = 2" by code_simp
  moreover have "extract_quantity ''pizza'' = 1" by code_simp
  moreover have "extract_quantity ''order 5'' = 5" by code_simp
  ultimately show ?thesis
    using extract_quantity_eq_spec[of m] extract_quantity_nonneg[of m] extract_quantity_zero[of m]
    by blast
qed

text \<open>
  The bound \<open>\<ge> 1\<close> of claim C3 as stated fails: the message \<open>order 0\<close> has no number
  word, its first digit run is \<open>0\<close>, and the parsed integer 0 is returned as it is.
\<close>

theorem extract_quantity_order_zero: "\<not> 1 \<le> extract_quantity ''order 0''"
proof -
  have "extract_quantity ''order 0'' = 0" by code_simp
  then show ?thesis by simp
qed

lemma first_number_word_wins:
  assumes "(w, v) \<in> set number_words" and "embedded_in_word w (lower m)"
  shows "\<exists>w' v'. find (\<lambda>(x, y). sublist x (lower m)) number_words = Some (w', v') \<and>
            extract_quantity m = v' \<and> v' \<le> v \<and>
            ((\<forall>(x, y)\<in>set number_words. y < v \<longrightarrow> \<not> sublist x (lower m)) \<longrightarrow> v' = v)"
proof -
  have sub: "sublist w (lower m)"
    using assms(2) by (auto simp: embedded_in_word_def dest: embedded_from_sublist)
  have "sorted (map snd number_words)" by (simp add: number_words_def)
  from find_sorted_first[OF this assms(1), of "\<lambda>(x, y). sublist x (lower m)"] sub
  obtain w' v' where f: "find (\<lambda>(x, y). sublist x (lower m)) number_words = Some (w', v')"
    and le: "v' \<le> v" by auto
  from f have mem: "(w', v') \<in> set number_words" and hit: "sublist w' (lower m)"
    by (auto dest: find_SomeD)
  have "extract_quantity m = v'" using f by (simp add: extract_quantity_eq_spec quantity_spec_def)
  moreover have "(\<forall>(x, y)\<in>set number_words. y < v \<longrightarrow> \<not> sublist x (lower m)) \<longrightarrow> v' = v"
    using mem hit le by fastforce
  ultimately show ?thesis using f le by blast
qed

text \<open>
  Claim C10, as amended.  Number words are detected by plain substring containment.
  When the lower-cased message contains a number word embedded in a longer word, the
  result is the value of the first table word that the lower-cased message contains,
  whatever digit runs the message has; that value is at most the embedded word's value
  and equals it when no number word of smaller value occurs in the message.  For
  \<open>my phone is 042\<close> the result is 1 (from \<open>one\<close> inside \<open>phone\<close>), not 42.
\<close>

theorem number_word_inside_longer_word:
  "((w, v) \<in> set number_words \<and> embedded_in_word w (lower m) \<longrightarrow>
      (\<exists>w' v'. find (\<lambda>(x, y). sublist x (lower m)) number_words = Some (w', v') \<and>
         extract_quantity m = v' \<and> v' \<le> v \<and>
         ((\<forall>(x, y)\<in>set number_words. y < v \<longrightarrow> \<not> sublist x (lower m)) \<longrightarrow> v' = v))) \<and>
   extract_quantity ''my phone is 042'' = 1"
proof -
  have "extract_quantity ''my phone is 042'' = 1" by code_simp
  then show ?thesis using first_number_word_wins[of w v m] by blast
qed

theorem number_word_inside_longer_word_witness:
  "(''one'', 1) \<in> set number_words \<and>
   embedded_in_word ''one'' (lower ''my phone is 042'') \<and>
   findall_digits ''my phone is 042'' = [''042''] \<and>
   extract_quantity ''my phone is 042'' = 1"
proof -
  have a: "(''one'', 1) \<in> set number_words" by (simp add: number_words_def)
  have b: "embedded_in_word ''one'' (lower ''my phone is 042'')" by code_simp
  have c: "findall_digits ''my phone is 042'' = [''042'']" by code_simp
  have d: "\<forall>(x, y)\<in>set number_words. y < 1 \<longrightarrow> \<not> sublist x (lower ''my phone is 042'')"
    by (simp add: number_words_def)
  from number_word_inside_longer_word[of "''one''" 1 "''my phone is 042''"] a b d
  have "extract_quantity ''my phone is 042'' = 1" by blast
  with a b c show ?thesis by simp
qed

text \<open>
  Claim C10 as stated fails when an earlier table word also occurs: in \<open>often two\<close>
  the word \<open>ten\<close> is embedded in \<open>often\<close>, yet the result is 2, not 10.
\<close>

theorem embedded_ten_not_returned:
  "embedded_in_word ''ten'' (lower ''often two'') \<and> extract_quantity ''often two'' \<noteq> 10"
proof -
  have "embedded_in_word ''ten'' (lower ''often two'')" by code_simp
  moreover have "extract_quantity ''often two'' = 2" by code_simp
  ultimately show ?thesis by simp
qed

section \<open>Properties of the intent classifier\<close>

lemma any_pattern_iff: "any_pattern ps m = (\<exists>p\<in>set ps. re_search p m)"
  by (induction ps) auto

lemma classify_loop_find:
  "classify_loop tbl m =
     (case find (\<lambda>(i, ps). \<exists>p\<in>set ps. re_search p m) tbl of
        Some (i, ps) \<Rightarrow> i | None \<Rightarrow> UNKNOWN)"
  by (induction tbl m rule: classify_loop.induct) (auto simp: any_pattern_iff)

lemma find_Some_decomp:
  "(find P xs = Some x) = (\<exists>pre post. xs = pre @ x # post \<and> P x \<and> (\<forall>y\<in>set pre. \<not> P y))"
proof (induction xs)
  case Nil
  then show ?case by simp
next
  case (Cons a xs)
  show ?case
  proof (cases "P a")
    case True
    have "(\<exists>pre post. a # xs = pre @ x # post \<and> P x \<and> (\<forall>y\<in>set pre. \<not> P y)) = (a = x)"
    proof
      assume "\<exists>pre post. a # xs = pre @ x # post \<and> P x \<and> (\<forall>y\<in>set pre. \<not> P y)"
      then obtain pre post where d: "a # xs = pre @ x # post" and n: "\<forall>y\<in>set pre. \<not> P y" by blast
      show "a = x"
      proof (cases pre)
        case Nil
        with d show ?thesis by simp
      next
        case (Cons b bs)
        with d have "b = a" by simp
        with Cons n True show ?thesis by simp
      qed
    next
      assume "a = x"
      with True have "a # xs = [] @ x # xs \<and> P x \<and> (\<forall>y\<in>set []. \<not> P y)" by simp
      then show "\<exists>pre post. a # xs = pre @ x # post \<and> P x \<and> (\<forall>y\<in>set pre. \<not> P y)" by blast
    qed
    with True show ?thesis by simp
  next
    case False
    have "(\<exists>pre post. a # xs = pre @ x # post \<and> P x \<and> (\<forall>y\<in>set pre. \<not> P y))
        = (\<exists>pre post. xs = pre @ x # post \<and> P x \<and> (\<forall>y\<in>set pre. \<not> P y))"
    proof
      assume "\<exists>pre post. a # xs = pre @ x # post \<and> P x \<and> (\<forall>y\<in>set pre. \<not> P y)"
      then obtain pre post where d: "a # xs = pre @ x # post" and px: "P x"
        and n: "\<forall>y\<in>set pre. \<not> P y" by blast
      from d px False obtain bs where pre: "pre = a # bs" by (cases pre) auto
      with d n have "xs = bs @ x # post \<and> P x \<and> (\<forall>y\<in>set bs. \<not> P y)" using px by simp
      then show "\<exists>pre post. xs = pre @ x # post \<and> P x \<and> (\<forall>y\<in>set pre. \<not> P y)" by blast
    next
      assume "\<exists>pre post. xs = pre @ x # post \<and> P x \<and> (\<forall>y\<in>set pre. \<not> P y)"
      then obtain pre post where "xs = pre @ x # post" "P x" "\<forall>y\<in>set pre. \<not> P y" by blast
      with False have "a # xs = (a # pre) @ x # post \<and> P x \<and> (\<forall>y\<in>set (a # pre). \<not> P y)" by simp
      then show "\<exists>pre post. a # xs = pre @ x # post \<and> P x \<and> (\<forall>y\<in>set pre. \<not> P y)" by blast
    qed
    with False Cons.IH show ?thesis by simp
  qed
qed

lemma intent_table_order:
  "map fst INTENT_PATTERNS =
     [GREETING, MENU_QUERY, CATEGORY_QUERY, ITEM_DETAILS, TRACK_ORDER, CONFIRM_ORDER,
      CANCEL_ORDER, ORDER_INTENT, SUPPORT, PERSONA_QUERY, KB_QUERY]"
  by (simp add: INTENT_PATTERNS_def)

lemma unknown_not_in_table: "(UNKNOWN, ps) \<notin> set INTENT_PATTERNS"
proof
  assume "(UNKNOWN, ps) \<in> set INTENT_PATTERNS"
  then have "UNKNOWN \<in> set (map fst INTENT_PATTERNS)" by force
  then show False unfolding intent_table_order by simp
qed

text \<open>
  Claim C4.  \<open>classify_intent\<close> returns the first category, in the order of the rule
  table, one of whose patterns matches the lower-cased and trimmed message (one pattern
  of the category suffices), and \<open>UNKNOWN\<close> when no pattern of any category matches.
  The result is a function of the message and of the constant table only.
\<close>

theorem classify_intent_first_match:
  "classify_intent m =
     (case find (\<lambda>(i, ps). \<exists>p\<in>set ps. re_search p (strip (lower m))) INTENT_PATTERNS of
        Some (i, ps) \<Rightarrow> i | None \<Rightarrow> UNKNOWN) \<and>
   (\<forall>i. (classify_intent m = i \<and> i \<noteq> UNKNOWN) =
      (\<exists>pre ps post. INTENT_PATTERNS = pre @ (i, ps) # post \<and>
         (\<exists>p\<in>set ps. re_search p (strip (lower m))) \<and>
         (\<forall>(j, qs)\<in>set pre. \<forall>q\<in>set qs. \<not> re_search q (strip (lower m))))) \<and>
   (classify_intent m = UNKNOWN) =
      (\<forall>(j, qs)\<in>set INTENT_PATTERNS. \<forall>q\<in>set qs. \<not> re_search q (strip (lower m))) \<and>
   map fst INTENT_PATTERNS =
     [GREETING, MENU_QUERY, CATEGORY_QUERY, ITEM_DETAILS, TRACK_ORDER, CONFIRM_ORDER,
      CANCEL_ORDER, ORDER_INTENT, SUPPORT, PERSONA_QUERY, KB_QUERY]"
proof -
  let ?t = "strip (lower m)"
  let ?P = "\<lambda>(i, ps). \<exists>p\<in>set ps. re_search p ?t"
  have eq: "classify_intent m = (case find ?P INTENT_PATTERNS of Some (i, ps) \<Rightarrow> i | None \<Rightarrow> UNKNOWN)"
    by (simp add: classify_intent_def classify_loop_find)
  have some: "find ?P INTENT_PATTERNS = Some (i, ps) \<Longrightarrow> i \<noteq> UNKNOWN" for i ps
    using unknown_not_in_table[of ps] by (auto dest: find_SomeD)
  have firsts: "(classify_intent m = i \<and> i \<noteq> UNKNOWN) =
      (\<exists>pre ps post. INTENT_PATTERNS = pre @ (i, ps) # post \<and>
         (\<exists>p\<in>set ps. re_search p ?t) \<and>
         (\<forall>(j, qs)\<in>set pre. \<forall>q\<in>set qs. \<not> re_search q ?t))" for i
  proof -
    have "(classify_intent m = i \<and> i \<noteq> UNKNOWN) = (\<exists>ps. find ?P INTENT_PATTERNS = Some (i, ps))"
      using eq some by (auto split: option.splits)
    also have "\<dots> = (\<exists>ps pre post. INTENT_PATTERNS = pre @ (i, ps) # post \<and> ?P (i, ps) \<and>
                          (\<forall>y\<in>set pre. \<not> ?P y))"
      by (simp only: find_Some_decomp)
    also have "\<dots> = (\<exists>pre ps post. INTENT_PATTERNS = pre @ (i, ps) # post \<and>
         (\<exists>p\<in>set ps. re_search p ?t) \<and>
         (\<forall>(j, qs)\<in>set pre. \<forall>q\<in>set qs. \<not> re_search q ?t))"
      by (simp add: case_prod_beta) blast
    finally show ?thesis .
  qed
  have none: "(classify_intent m = UNKNOWN) =
      (\<forall>(j, qs)\<in>set INTENT_PATTERNS. \<forall>q\<in>set qs. \<not> re_search q ?t)"
  proof -
    have "(classify_intent m = UNKNOWN) = (find ?P INTENT_PATTERNS = None)"
      using eq some by (auto split: option.splits)
    also have "\<dots> = (\<forall>(j, qs)\<in>set INTENT_PATTERNS. \<forall>q\<in>set qs. \<not> re_search q ?t)"
      by (simp add: find_None_iff case_prod_beta) force
    finally show ?thesis .
  qed
  from eq firsts none intent_table_order show ?thesis by blast
qed


theorem classify_intent_first_match_witness:
  "classify_intent ''track my order'' = TRACK_ORDER \<and>
   classify_intent ''blah blah'' = UNKNOWN \<and>
   (\<exists>pre ps post. INTENT_PATTERNS = pre @ (TRACK_ORDER, ps) # post \<and>
      (\<exists>p\<in>set ps. re_search p ''track my order''))"
proof -
  have a: "classify_intent ''track my order'' = TRACK_ORDER" by code_simp
  have b: "classify_intent ''blah blah'' = UNKNOWN" by code_simp
  have n: "strip (lower ''track my order'') = ''track my order''" by code_simp
  have "(classify_intent ''track my order'' = TRACK_ORDER \<and> TRACK_ORDER \<noteq> UNKNOWN) =
      (\<exists>pre ps post. INTENT_PATTERNS = pre @ (TRACK_ORDER, ps) # post \<and>
         (\<exists>p\<in>set ps. re_search p (strip (lower ''track my order''))) \<and>
         (\<forall>(j, qs)\<in>set pre. \<forall>q\<in>set qs. \<not> re_search q (strip (lower ''track my order''))))"
    using classify_intent_first_match[of "''track my order''"] by blast
  with a have "\<exists>pre ps post. INTENT_PATTERNS = pre @ (TRACK_ORDER, ps) # post \<and>
      (\<exists>p\<in>set ps. re_search p (strip (lower ''track my order'')))"
    by blast
  with a b show ?thesis unfolding n by simp
qed

section \<open>Properties of the knowledge store\<close>

lemma without_with_score: "without_score (with_score e s) = e"
  by (simp add: without_score_def with_score_def kb_entry.defs)

lemma score_with_score: "score (with_score e s) = s"
  by (simp add: with_score_def kb_entry.defs scored_entry.defs)

lemma search_loop_filter:
  "search_loop q cat es = map (\<lambda>e. with_score e (entry_score q e)) (filter (candidate q cat) es)"
  by (induction es) (simp_all add: candidate_def)

lemma insort_key_map:
  "insort_key f (g x) (map g xs) = map g (insort_key (\<lambda>y. f (g y)) x xs)"
  by (induction xs) simp_all

lemma sort_key_map: "sort_key f (map g xs) = map g (sort_key (\<lambda>y. f (g y)) xs)"
  by (induction xs) (simp_all add: insort_key_map)

lemma slice_to_map: "slice_to (map g xs) n = map g (slice_to xs n)"
  by (simp add: slice_to_def take_map)

lemma slice_to_prefix: "prefix (slice_to xs n) xs"
  by (simp add: slice_to_def take_is_prefix)

lemma slice_to_length: "0 \<le> n \<Longrightarrow> length (slice_to xs n) \<le> nat n"
  by (simp add: slice_to_def)

lemma nat_plus_negative: "limit < 0 \<Longrightarrow> nat (int n + limit) = n - nat (- limit)"
  by arith

lemma search_ranked_candidates:
  "search kb q cat limit =
     slice_to (sort_key (\<lambda>e. - entry_score q e) (filter (candidate q cat) (entries kb))) limit"
proof -
  have "sort_key (\<lambda>x. - score x) (search_loop q cat (entries kb))
      = map (\<lambda>e. with_score e (entry_score q e))
          (sort_key (\<lambda>e. - entry_score q e) (filter (candidate q cat) (entries kb)))"
    by (simp add: search_loop_filter sort_key_map score_with_score)
  then show ?thesis
    by (simp add: search_def slice_to_map o_def without_with_score)
qed

lemma sort_key_const:
  assumes "\<forall>x\<in>set xs. f x = c"
  shows "sort_key f xs = xs"
proof -
  have "filter (\<lambda>y. f y = c) (sort_key f xs) = filter (\<lambda>y. f y = c) xs"
    by (rule sort_key_stable)
  moreover have "\<forall>x\<in>set (sort_key f xs). f x = c" using assms by simp
  ultimately show ?thesis using assms by (simp add: filter_id_conv)
qed

text \<open>
  Claim C7, as amended.  For every corpus state, query, optional category filter and
  limit, the sequence returned by \<open>search\<close> (a) has at most \<open>limit\<close> entries whenever
  \<open>limit\<close> is not negative: it is then the first \<open>limit\<close> entries of the ranked list
  (the candidates sorted by score descending), whereas for a negative \<open>limit\<close> it is
  the ranked list without its last \<open>|limit|\<close> entries (empty when the list has no more
  than that), (b) contains only entries whose computed score is above 0
  (and that pass the category filter), (c) is ordered by score descending, the entries
  of equal score standing in their order in the store (for each score, the returned
  entries of that score are an initial part of the store's candidates of that score),
  and (d) consists of entries of the store as they are: the score is not part of a
  returned entry.
\<close>

theorem search_ranking:
  "(0 \<le> limit \<longrightarrow> length (search kb q cat limit) \<le> nat limit) \<and>
   (0 \<le> limit \<longrightarrow>
      search kb q cat limit =
        take (nat limit)
          (sort_key (\<lambda>e. - entry_score q e) (filter (candidate q cat) (entries kb)))) \<and>
   (limit < 0 \<longrightarrow>
      search kb q cat limit =
        take (nat (int (length (sort_key (\<lambda>e. - entry_score q e)
                                  (filter (candidate q cat) (entries kb)))) + limit))
          (sort_key (\<lambda>e. - entry_score q e) (filter (candidate q cat) (entries kb))) \<and>
      length (search kb q cat limit) =
        length (sort_key (\<lambda>e. - entry_score q e) (filter (candidate q cat) (entries kb)))
          - nat (- limit)) \<and>
   (\<forall>e\<in>set (search kb q cat limit).
       0 < entry_score q e \<and> \<not> category_excluded cat e \<and> e \<in> set (entries kb)) \<and>
   sorted_wrt (\<lambda>a b. entry_score q b \<le> entry_score q a) (search kb q cat limit) \<and>
   (\<forall>k. prefix (filter (\<lambda>e. entry_score q e = k) (search kb q cat limit))
              (filter (\<lambda>e. entry_score q e = k)
                 (filter (\<lambda>e. \<not> category_excluded cat e) (entries kb))))"
proof -
  let ?c = "filter (candidate q cat) (entries kb)"
  let ?s = "sort_key (\<lambda>e. - entry_score q e) ?c"
  have res: "search kb q cat limit = slice_to ?s limit" by (rule search_ranked_candidates)
  have pre: "prefix (search kb q cat limit) ?s" unfolding res by (rule slice_to_prefix)
  have a: "0 \<le> limit \<longrightarrow> length (search kb q cat limit) \<le> nat limit"
    unfolding res by (simp add: slice_to_length)
  have a1: "0 \<le> limit \<longrightarrow> search kb q cat limit = take (nat limit) ?s"
    unfolding res by (simp add: slice_to_def)
  have a2: "limit < 0 \<longrightarrow>
      search kb q cat limit = take (nat (int (length ?s) + limit)) ?s \<and>
      length (search kb q cat limit) = length ?s - nat (- limit)"
  proof
    assume neg: "limit < 0"
    have t: "search kb q cat limit = take (nat (int (length ?s) + limit)) ?s"
      unfolding res using neg by (simp add: slice_to_def)
    have "nat (int (length ?s) + limit) = length ?s - nat (- limit)"
      using neg by (rule nat_plus_negative)
    then have "length (take (nat (int (length ?s) + limit)) ?s) = length ?s - nat (- limit)"
      by simp
    with t show "search kb q cat limit = take (nat (int (length ?s) + limit)) ?s \<and>
      length (search kb q cat limit) = length ?s - nat (- limit)" by simp
  qed
  have "set (search kb q cat limit) \<subseteq> set ?s" using pre by (rule set_mono_prefix)
  then have b: "\<forall>e\<in>set (search kb q cat limit).
       0 < entry_score q e \<and> \<not> category_excluded cat e \<and> e \<in> set (entries kb)"
    by (auto simp: candidate_def)
  have "sorted (map (\<lambda>e. - entry_score q e) ?s)" by (rule sorted_sort_key)
  then have "sorted_wrt (\<lambda>a b. entry_score q b \<le> entry_score q a) ?s"
    by (simp add: sorted_map)
  then have c: "sorted_wrt (\<lambda>a b. entry_score q b \<le> entry_score q a) (search kb q cat limit)"
    using pre by (auto simp: prefix_def sorted_wrt_append)
  have d: "prefix (filter (\<lambda>e. entry_score q e = k) (search kb q cat limit))
              (filter (\<lambda>e. entry_score q e = k)
                 (filter (\<lambda>e. \<not> category_excluded cat e) (entries kb)))" for k
  proof (cases "0 < k")
    case True
    have "filter (\<lambda>e. entry_score q e = k) ?s = filter (\<lambda>e. - entry_score q e = - k) ?s"
      by simp
    also have "\<dots> = filter (\<lambda>e. - entry_score q e = - k) ?c"
      by (rule sort_key_stable)
    also have "\<dots> = filter (\<lambda>e. entry_score q e = k)
                 (filter (\<lambda>e. \<not> category_excluded cat e) (entries kb))"
      using True by (auto simp: candidate_def intro: filter_cong)
    finally show ?thesis using filter_mono_prefix[OF pre] by metis
  next
    case False
    have "filter (\<lambda>e. entry_score q e = k) (search kb q cat limit) = []"
      using b False by (auto simp: filter_empty_conv)
    then show ?thesis by simp
  qed
  have d': "\<forall>k. prefix (filter (\<lambda>e. entry_score q e = k) (search kb q cat limit))
              (filter (\<lambda>e. entry_score q e = k)
                 (filter (\<lambda>e. \<not> category_excluded cat e) (entries kb)))"
    using d by blast
  show ?thesis by (intro conjI a a1 a2 b c d')
qed

theorem search_ranking_witness:
  "(0::int) \<le> 2 \<and>
   map entry_id (search kb_three ''pepperoni pizza'' None 2) = [2, 1] \<and>
   map (entry_score ''pepperoni pizza'') (entries kb_three) = [35, 150, 35] \<and>
   length (search kb_three ''pepperoni pizza'' None 2) \<le> nat 2 \<and>
   (- 1::int) < 0 \<and>
   map entry_id
     (sort_key (\<lambda>e. - entry_score ''pizza'' e) (filter (candidate ''pizza'' None) (entries kb_three)))
     = [1, 2, 3] \<and>
   map entry_id (search kb_three ''pizza'' None (- 1)) = [1, 2]"
proof -
  let ?r = "sort_key (\<lambda>e. - entry_score ''pizza'' e) (filter (candidate ''pizza'' None) (entries kb_three))"
  have a: "map entry_id (search kb_three ''pepperoni pizza'' None 2) = [2, 1]" by code_simp
  have b: "map (entry_score ''pepperoni pizza'') (entries kb_three) = [35, 150, 35]" by code_simp
  have c: "length (search kb_three ''pepperoni pizza'' None 2) \<le> nat 2"
    by (rule search_ranking[of 2 kb_three "''pepperoni pizza''" None, THEN conjunct1, THEN mp]) simp
  have r: "map entry_id ?r = [1, 2, 3]" by code_simp
  then have "length (map entry_id ?r) = 3" by simp
  then have len: "length ?r = 3" by simp
  have neg: "(- 1::int) < 0" by simp
  have "search kb_three ''pizza'' None (- 1) = take (nat (int (length ?r) + - 1)) ?r"
    by (rule search_ranking[of "- 1" kb_three "''pizza''" None,
          THEN conjunct2, THEN conjunct2, THEN conjunct1, THEN mp, OF neg, THEN conjunct1])
  then have "search kb_three ''pizza'' None (- 1) = take 2 ?r" unfolding len by simp
  then have "map entry_id (search kb_three ''pizza'' None (- 1)) = take 2 (map entry_id ?r)"
    by (simp add: take_map)
  then have d: "map entry_id (search kb_three ''pizza'' None (- 1)) = [1, 2]"
    unfolding r by simp
  from a b c r d show ?thesis by simp
qed

text \<open>
  Part (a) of claim C7 as stated fails for a negative limit: the slice \<open>results[:-1]\<close>
  drops the last of three results and returns two entries, more than the limit.
\<close>

theorem search_negative_limit:
  "length (search kb_three ''pizza'' None (- 1)) = 2 \<and>
   \<not> int (length (search kb_three ''pizza'' None (- 1))) \<le> - 1"
proof -
  have "map entry_id (search kb_three ''pizza'' None (- 1)) = [1, 2]" by code_simp
  then have "length (map entry_id (search kb_three ''pizza'' None (- 1))) = 2" by simp
  then show ?thesis by simp
qed

lemma entry_score_no_words:
  assumes "split_ws (lower q) = []"
  shows "entry_score q e =
           (if str_in (lower q) (lower (title e)) then 50 else 0) +
           (if str_in (lower q) (lower (content e)) then 30 else 0)"
  using assms by (simp add: entry_score_def)

lemma str_in_empty: "str_in [] s"
  by (cases s) simp_all

lemma entry_score_empty_query: "entry_score [] e = 80"
  by (simp add: entry_score_def lower_def str_in_empty)

lemma search_empty_of_no_candidate:
  assumes "\<forall>e\<in>set (entries kb). \<not> candidate q cat e"
  shows "search kb q cat limit = []"
proof -
  have "filter (candidate q cat) (entries kb) = []" using assms by (simp add: filter_empty_conv)
  then show ?thesis by (simp add: search_ranked_candidates slice_to_def)
qed

text \<open>
  Claim C2, as amended.  For every corpus state and every query without words after
  normalization, no word adds to a score: the score of an entry is 50 if the
  lower-cased query occurs verbatim in the lower-cased title, plus 30 if it occurs
  verbatim in the lower-cased content.  The search returns the empty sequence when no
  entry passing the category filter contains the lower-cased query verbatim in its
  title or content.  The empty query occurs in every text: it scores 80 on every
  entry, and the search returns the slice \<open>[:limit]\<close> of the entries that pass the
  category filter, in store order.
\<close>

theorem search_wordless_query:
  "(split_ws (lower q) = [] \<longrightarrow>
      (\<forall>e. entry_score q e =
            (if str_in (lower q) (lower (title e)) then 50 else 0) +
            (if str_in (lower q) (lower (content e)) then 30 else 0)) \<and>
      ((\<forall>e\<in>set (entries kb). \<not> category_excluded cat e \<longrightarrow>
            \<not> str_in (lower q) (lower (title e)) \<and> \<not> str_in (lower q) (lower (content e)))
         \<longrightarrow> search kb q cat limit = [])) \<and>
   (\<forall>e. entry_score [] e = 80) \<and>
   search kb [] cat limit =
     slice_to (filter (\<lambda>e. \<not> category_excluded cat e) (entries kb)) limit"
proof -
  have one: "\<forall>e. entry_score q e =
            (if str_in (lower q) (lower (title e)) then 50 else 0) +
            (if str_in (lower q) (lower (content e)) then 30 else 0)"
    if "split_ws (lower q) = []"
    using that entry_score_no_words by blast
  have two: "search kb q cat limit = []"
    if w: "split_ws (lower q) = []" and
       n: "\<forall>e\<in>set (entries kb). \<not> category_excluded cat e \<longrightarrow>
            \<not> str_in (lower q) (lower (title e)) \<and> \<not> str_in (lower q) (lower (content e))"
  proof (rule search_empty_of_no_candidate)
    show "\<forall>e\<in>set (entries kb). \<not> candidate q cat e"
      using n by (auto simp: candidate_def entry_score_no_words[OF w])
  qed
  have cand: "filter (candidate [] cat) (entries kb)
            = filter (\<lambda>e. \<not> category_excluded cat e) (entries kb)"
    by (rule filter_cong) (simp_all add: candidate_def entry_score_empty_query)
  have "sort_key (\<lambda>e. - entry_score [] e) (filter (candidate [] cat) (entries kb))
        = filter (candidate [] cat) (entries kb)"
    by (rule sort_key_const[where c = "- 80"]) (simp add: entry_score_empty_query)
  then have three: "search kb [] cat limit =
     slice_to (filter (\<lambda>e. \<not> category_excluded cat e) (entries kb)) limit"
    by (simp add: search_ranked_candidates cand)
  from one two three entry_score_empty_query show ?thesis by blast
qed

theorem search_wordless_query_witness:
  "split_ws (lower ''   '') = [] \<and>
   search kb_three ''   '' None 5 = [] \<and>
   map entry_id (search kb_three [] None 2) = [1, 2]"
proof -
  have w: "split_ws (lower ''   '') = []" by code_simp
  have n: "\<forall>e\<in>set (entries kb_three). \<not> category_excluded None e \<longrightarrow>
            \<not> str_in (lower ''   '') (lower (title e)) \<and>
            \<not> str_in (lower ''   '') (lower (content e))"
    by code_simp
  have e: "map entry_id (slice_to (filter (\<lambda>e. \<not> category_excluded None e) (entries kb_three)) 2) = [1, 2]"
    by code_simp
  from search_wordless_query[of "''   ''" kb_three None 5] w n
  have "search kb_three ''   '' None 5 = []" by blast
  moreover have "search kb_three [] None 2 =
      slice_to (filter (\<lambda>e. \<not> category_excluded None e) (entries kb_three)) 2"
    using search_wordless_query[of "[]" kb_three None 2] by blast
  ultimately show ?thesis using w e by simp
qed

text \<open>
  Claim C2 as stated fails for the empty query: it has no words, yet every entry of the
  sample corpus is returned.
\<close>

theorem search_empty_query_returns_entries:
  "split_ws (lower []) = [] \<and> map entry_id (search kb_three [] None 5) = [1, 2, 3]"
  by code_simp


lemma apply_update_fields:
  "apply_update e ttl cnt tgs now =
     e\<lparr>title := (if truthy ttl then the ttl else title e),
       content := (if truthy cnt then the cnt else content e),
       tags := (if truthy tgs then the tgs else tags e),
       version := version e + 1,
       updated_at := now\<rparr>"
  by (simp add: apply_update_def Let_def)

lemma update_loop_absent:
  "find (\<lambda>e. entry_id e = eid) es = None \<Longrightarrow> update_loop es eid ttl cnt tgs now = (None, es)"
  by (induction es) (auto split: if_splits)

lemma update_loop_present:
  "find (\<lambda>e. entry_id e = eid) es = Some e \<Longrightarrow>
   \<exists>pre post. es = pre @ e # post \<and> (\<forall>x\<in>set pre. entry_id x \<noteq> eid) \<and>
     update_loop es eid ttl cnt tgs now =
       (Some (apply_update e ttl cnt tgs now), pre @ apply_update e ttl cnt tgs now # post)"
proof (induction es)
  case Nil
  then show ?case by simp
next
  case (Cons a es)
  show ?case
  proof (cases "entry_id a = eid")
    case True
    with Cons.prems have "a = e" by simp
    with True have "a # es = [] @ e # es \<and> (\<forall>x\<in>set []. entry_id x \<noteq> eid) \<and>
       update_loop (a # es) eid ttl cnt tgs now =
         (Some (apply_update e ttl cnt tgs now), [] @ apply_update e ttl cnt tgs now # es)"
      by simp
    then show ?thesis by blast
  next
    case False
    with Cons.prems have "find (\<lambda>e. entry_id e = eid) es = Some e" by simp
    from Cons.IH[OF this] obtain pre post where
      "es = pre @ e # post" "\<forall>x\<in>set pre. entry_id x \<noteq> eid"
      "update_loop es eid ttl cnt tgs now =
         (Some (apply_update e ttl cnt tgs now), pre @ apply_update e ttl cnt tgs now # post)"
      by blast
    with False have "a # es = (a # pre) @ e # post \<and> (\<forall>x\<in>set (a # pre). entry_id x \<noteq> eid) \<and>
       update_loop (a # es) eid ttl cnt tgs now =
         (Some (apply_update e ttl cnt tgs now), (a # pre) @ apply_update e ttl cnt tgs now # post)"
      by simp
    then show ?thesis by blast
  qed
qed

text \<open>
  Claim C8, as amended.  When no stored entry has the identifier, \<open>update_entry\<close>
  returns no entry and leaves the store as it is.  Otherwise the first entry with the
  identifier is replaced, at its position, by the entry that \<open>update_entry\<close> returns:
  title, content and tags are overwritten by the supplied values that are not empty
  (an absent or empty argument leaves the field as it is), the version is incremented
  by 1 and \<open>updated_at\<close> is the clock reading; its identifier, category and creation
  time, every other entry and the identifier counter are unchanged.
\<close>

theorem update_entry_effect:
  "(case find (\<lambda>e. entry_id e = eid) (entries kb) of
      None \<Rightarrow> update_entry kb eid ttl cnt tgs now = (None, kb)
    | Some e \<Rightarrow>
        (\<exists>pre post. entries kb = pre @ e # post \<and> (\<forall>x\<in>set pre. entry_id x \<noteq> eid) \<and>
           update_entry kb eid ttl cnt tgs now =
             (Some (e\<lparr>title := (if truthy ttl then the ttl else title e),
                      content := (if truthy cnt then the cnt else content e),
                      tags := (if truthy tgs then the tgs else tags e),
                      version := version e + 1,
                      updated_at := now\<rparr>),
              kb\<lparr>entries :=
                   pre @ e\<lparr>title := (if truthy ttl then the ttl else title e),
                            content := (if truthy cnt then the cnt else content e),
                            tags := (if truthy tgs then the tgs else tags e),
                            version := version e + 1,
                            updated_at := now\<rparr> # post\<rparr>)))"
proof (cases "find (\<lambda>e. entry_id e = eid) (entries kb)")
  case None
  then show ?thesis by (simp add: update_entry_def update_loop_absent)
next
  case (Some e)
  from update_loop_present[OF Some, of ttl cnt tgs now] obtain pre post where
    d: "entries kb = pre @ e # post" and n: "\<forall>x\<in>set pre. entry_id x \<noteq> eid" and
    u: "update_loop (entries kb) eid ttl cnt tgs now =
         (Some (apply_update e ttl cnt tgs now), pre @ apply_update e ttl cnt tgs now # post)"
    by blast
  have "update_entry kb eid ttl cnt tgs now =
      (Some (apply_update e ttl cnt tgs now), kb\<lparr>entries := pre @ apply_update e ttl cnt tgs now # post\<rparr>)"
    by (simp add: update_entry_def u)
  with d n show ?thesis unfolding Some apply_update_fields by auto
qed

theorem update_entry_effect_witness:
  "find (\<lambda>e. entry_id e = 2) (entries kb_three) = Some (entries kb_three ! 1) \<and>
   fst (update_entry kb_three 2 (Some ''Pepperoni'') None None ''t1'') =
     Some ((entries kb_three ! 1)\<lparr>title := ''Pepperoni'', version := 2, updated_at := ''t1''\<rparr>) \<and>
   find (\<lambda>e. entry_id e = 99) (entries kb_three) = None \<and>
   update_entry kb_three 99 (Some ''Pepperoni'') None None ''t1'' = (None, kb_three)"
proof -
  have f: "find (\<lambda>e. entry_id e = 2) (entries kb_three) = Some (entries kb_three ! 1)" by code_simp
  have g: "find (\<lambda>e. entry_id e = 99) (entries kb_three) = None" by code_simp
  have t: "version (entries kb_three ! Suc 0) = 1" by code_simp
  from update_entry_effect[where eid = 2 and kb = kb_three and ttl = "Some ''Pepperoni''"
      and cnt = None and tgs = None and now = "''t1''"]
  have "fst (update_entry kb_three 2 (Some ''Pepperoni'') None None ''t1'') =
     Some ((entries kb_three ! 1)\<lparr>title := ''Pepperoni'', version := 2, updated_at := ''t1''\<rparr>)"
    unfolding f by (auto simp: t)
  moreover from update_entry_effect[where eid = 99 and kb = kb_three and ttl = "Some ''Pepperoni''"
      and cnt = None and tgs = None and now = "''t1''"]
  have "update_entry kb_three 99 (Some ''Pepperoni'') None None ''t1'' = (None, kb_three)"
    unfolding g by simp
  ultimately show ?thesis using f g by simp
qed

text \<open>
  Claim C8 as stated fails for a supplied empty title: the guard \<open>if title:\<close> treats it
  as not supplied and the stored title is kept.
\<close>

theorem update_entry_empty_title_kept:
  "map_option title (fst (update_entry kb_three 1 (Some []) None None ''t1'')) =
     Some ''Margherita Pizza Ingredients'' \<and>
   map_option title (fst (update_entry kb_three 1 (Some []) None None ''t1'')) \<noteq> Some []"
proof -
  have a: "map_option title (fst (update_entry kb_three 1 (Some []) None None ''t1'')) =
     Some ''Margherita Pizza Ingredients''" by code_simp
  show ?thesis unfolding a by simp
qed

section \<open>Properties of the dialogue manager\<close>

lemma get_user_context_lookup:
  "snd (get_user_context ctxs uid) uid = Some (fst (get_user_context ctxs uid))"
  by (simp add: get_user_context_def split: option.splits)

lemma get_user_context_other:
  "u \<noteq> uid \<Longrightarrow> snd (get_user_context ctxs uid) u = ctxs u"
  by (simp add: get_user_context_def split: option.splits)

lemma get_user_context_present:
  "ctxs uid = Some s \<Longrightarrow> get_user_context ctxs uid = (s, ctxs)"
  by (simp add: get_user_context_def)

lemma process_message_unfold:
  "process_message ctxs kb m uid menu orders =
     (fst (handle (classify_intent m) kb m uid menu orders
             ((fst (get_user_context ctxs uid))\<lparr>last_intent := Some (classify_intent m)\<rparr>)),
      (snd (get_user_context ctxs uid))(uid \<mapsto>
         snd (handle (classify_intent m) kb m uid menu orders
               ((fst (get_user_context ctxs uid))\<lparr>last_intent := Some (classify_intent m)\<rparr>))))"
  by (simp add: process_message_def Let_def split: prod.splits)

lemma process_message_unknown:
  assumes "classify_intent m = UNKNOWN"
  shows "process_message ctxs kb m uid menu orders =
           (\<lparr>response = HelpText, action = None, data = None\<rparr>,
            (snd (get_user_context ctxs uid))(uid \<mapsto>
               (fst (get_user_context ctxs uid))\<lparr>last_intent := Some UNKNOWN\<rparr>))"
  by (simp add: process_message_unfold assms handle_def)

text \<open>
  The pause \<open>time.sleep(1.5)\<close> inside \<open>process_message\<close> is an effect in real time and
  has no counterpart in the model.
\<close>

text \<open>
  Claim C9.  For every user and every message classified as \<open>UNKNOWN\<close>, a second call
  with that message leaves the whole session map, and so the user's cart, last intent
  and order history, exactly as the first call left it (whatever menu, orders and
  corpus the second call is given); its outcome is the fixed help reply without action
  or payload.
\<close>

theorem unknown_message_idempotent:
  assumes "classify_intent m = UNKNOWN"
  shows "snd (process_message (snd (process_message ctxs kb m uid menu orders)) kb' m uid menu' orders')
           = snd (process_message ctxs kb m uid menu orders) \<and>
         fst (process_message (snd (process_message ctxs kb m uid menu orders)) kb' m uid menu' orders')
           = \<lparr>response = HelpText, action = None, data = None\<rparr>"
proof -
  let ?s = "(fst (get_user_context ctxs uid))\<lparr>last_intent := Some UNKNOWN\<rparr>"
  let ?c1 = "(snd (get_user_context ctxs uid))(uid \<mapsto> ?s)"
  have one: "process_message ctxs kb m uid menu orders =
      (\<lparr>response = HelpText, action = None, data = None\<rparr>, ?c1)"
    by (rule process_message_unknown[OF assms])
  have g: "get_user_context ?c1 uid = (?s, ?c1)"
    by (rule get_user_context_present) simp
  have two: "process_message ?c1 kb' m uid menu' orders' =
      (\<lparr>response = HelpText, action = None, data = None\<rparr>, ?c1(uid \<mapsto> ?s\<lparr>last_intent := Some UNKNOWN\<rparr>))"
    unfolding process_message_unknown[OF assms] g by simp
  have "?c1(uid \<mapsto> ?s\<lparr>last_intent := Some UNKNOWN\<rparr>) = ?c1" by simp
  with one two show ?thesis by simp
qed

lemma foldl_add_sum_list:
  "foldl (\<lambda>acc i. acc + f i) (a::real) xs = a + sum_list (map f xs)"
  by (induction xs arbitrary: a) simp_all

lemma cart_total_sum:
  "cart_total c = (\<Sum>i\<leftarrow>c. line_price i * of_int (quantity i))"
  by (simp add: cart_total_def foldl_add_sum_list)

text \<open>
  Claim C6.  The \<open>CONFIRM_ORDER\<close> handler does not change the cart.  After the call the
  user's session has the cart it had when the handler started (the empty cart for a
  user seen for the first time); an existing session differs from before in
  \<open>last_intent\<close> only, and no other user's session changes.  On an empty cart the
  outcome is the nothing-to-confirm reply, without action, payload or total.  On a
  non-empty cart the outcome carries the action \<open>confirm_order\<close>, the cart, the total
  \<open>\<Sum> price \<times> quantity\<close> over the lines and the flag asking for customer details; the
  cart is not cleared.
\<close>

theorem confirm_order_keeps_cart:
  assumes "classify_intent m = CONFIRM_ORDER"
  shows "(\<exists>s'. snd (process_message ctxs kb m uid menu orders) uid = Some s' \<and>
             cart s' = cart (fst (get_user_context ctxs uid))) \<and>
         (\<forall>s. ctxs uid = Some s \<longrightarrow>
             snd (process_message ctxs kb m uid menu orders) uid =
               Some (s\<lparr>last_intent := Some CONFIRM_ORDER\<rparr>)) \<and>
         (\<forall>u. u \<noteq> uid \<longrightarrow> snd (process_message ctxs kb m uid menu orders) u = ctxs u) \<and>
         (cart (fst (get_user_context ctxs uid)) = [] \<longrightarrow>
            fst (process_message ctxs kb m uid menu orders) =
              \<lparr>response = CartEmpty, action = None, data = None\<rparr>) \<and>
         (cart (fst (get_user_context ctxs uid)) \<noteq> [] \<longrightarrow>
            fst (process_message ctxs kb m uid menu orders) =
              \<lparr>response = OrderConfirmed (cart (fst (get_user_context ctxs uid))),
                action = Some ''confirm_order'',
                data = Some (Confirm (cart (fst (get_user_context ctxs uid)))
                         (\<Sum>i\<leftarrow>cart (fst (get_user_context ctxs uid)). line_price i * of_int (quantity i))
                         True)\<rparr>)"
proof -
  let ?s = "fst (get_user_context ctxs uid)"
  have st: "snd (process_message ctxs kb m uid menu orders) =
      (snd (get_user_context ctxs uid))(uid \<mapsto> ?s\<lparr>last_intent := Some CONFIRM_ORDER\<rparr>)"
    by (simp add: process_message_unfold assms handle_def handle_confirm_order_def)
  have a: "\<exists>s'. snd (process_message ctxs kb m uid menu orders) uid = Some s' \<and> cart s' = cart ?s"
    unfolding st by simp
  have b: "\<forall>s. ctxs uid = Some s \<longrightarrow>
      snd (process_message ctxs kb m uid menu orders) uid = Some (s\<lparr>last_intent := Some CONFIRM_ORDER\<rparr>)"
    unfolding st by (simp add: get_user_context_present)
  have c: "\<forall>u. u \<noteq> uid \<longrightarrow> snd (process_message ctxs kb m uid menu orders) u = ctxs u"
    unfolding st by (simp add: get_user_context_other)
  have d: "cart ?s = [] \<longrightarrow>
      fst (process_message ctxs kb m uid menu orders) = \<lparr>response = CartEmpty, action = None, data = None\<rparr>"
    by (simp add: process_message_unfold assms handle_def handle_confirm_order_def)
  have e: "cart ?s \<noteq> [] \<longrightarrow>
      fst (process_message ctxs kb m uid menu orders) =
        \<lparr>response = OrderConfirmed (cart ?s), action = Some ''confirm_order'',
          data = Some (Confirm (cart ?s) (\<Sum>i\<leftarrow>cart ?s. line_price i * of_int (quantity i)) True)\<rparr>"
    by (simp add: process_message_unfold assms handle_def handle_confirm_order_def cart_total_sum)
  from a b c d e show ?thesis by blast
qed

lemma bump_existing_ids: "map menu_item_id (bump_existing mid q c) = map menu_item_id c"
  by (induction c) simp_all

lemma bump_existing_nonneg:
  "0 \<le> q \<Longrightarrow> \<forall>l\<in>set c. 0 \<le> quantity l \<Longrightarrow> \<forall>l\<in>set (bump_existing mid q c). 0 \<le> quantity l"
  by (induction c) auto

lemma bump_existing_decomp:
  "menu_item_id l = mid \<Longrightarrow> \<forall>x\<in>set pre. menu_item_id x \<noteq> mid \<Longrightarrow>
   bump_existing mid q (pre @ l # post) = pre @ l\<lparr>quantity := quantity l + q\<rparr> # post"
  by (induction pre) simp_all

lemma find_None_ids: "(find (\<lambda>i. menu_item_id i = mid) c = None) = (mid \<notin> set (map menu_item_id c))"
  by (induction c) auto

lemma add_to_cart_ok: "0 \<le> q \<Longrightarrow> cart_ok c \<Longrightarrow> cart_ok (add_to_cart c itm q)"
proof (cases "find (\<lambda>i. menu_item_id i = item_id itm) c")
  case None
  assume "0 \<le> q" "cart_ok c"
  moreover from None have "item_id itm \<notin> set (map menu_item_id c)" by (simp add: find_None_ids)
  ultimately show ?thesis using None by (auto simp: cart_ok_def add_to_cart_def)
next
  case (Some a)
  assume "0 \<le> q" "cart_ok c"
  then show ?thesis using Some bump_existing_nonneg[of q c "item_id itm"]
    by (simp add: cart_ok_def add_to_cart_def bump_existing_ids)
qed

lemma add_all_ok: "0 \<le> q \<Longrightarrow> cart_ok c \<Longrightarrow> cart_ok (add_all c items q)"
  by (induction items arbitrary: c) (simp_all add: add_to_cart_ok)

lemma handle_cart:
  "cart (snd (handle i kb m uid menu orders s)) =
     (if i = ORDER_INTENT then add_all (cart s) (extract_menu_items m menu) (extract_quantity m)
      else if i = CANCEL_ORDER then []
      else cart s)"
  by (cases i)
     (auto simp: handle_def handle_order_intent_def handle_confirm_order_def
        handle_cancel_order_def Let_def split: list.splits)

lemma handle_cart_ok: "cart_ok (cart s) \<Longrightarrow> cart_ok (cart (snd (handle i kb m uid menu orders s)))"
  by (simp add: handle_cart add_all_ok extract_quantity_nonneg) (simp add: cart_ok_def)

lemma get_user_context_ok:
  assumes "carts_ok ctxs"
  shows "cart_ok (cart (fst (get_user_context ctxs uid)))" and "carts_ok (snd (get_user_context ctxs uid))"
  using assms
  by (auto simp: carts_ok_def get_user_context_def new_session_def cart_ok_def split: option.splits)

lemma process_message_ok:
  assumes "carts_ok ctxs"
  shows "carts_ok (snd (process_message ctxs kb m uid menu orders))"
proof -
  let ?s = "(fst (get_user_context ctxs uid))\<lparr>last_intent := Some (classify_intent m)\<rparr>"
  have "cart_ok (cart ?s)" using get_user_context_ok(1)[OF assms, of uid] by simp
  then have "cart_ok (cart (snd (handle (classify_intent m) kb m uid menu orders ?s)))"
    by (rule handle_cart_ok)
  then show ?thesis
    using get_user_context_ok(2)[OF assms, of uid]
    by (auto simp: process_message_unfold carts_ok_def)
qed

lemma chat_ok:
  assumes "carts_ok ctxs"
  shows "carts_ok (chat ctxs kb m uid menu orders)"
proof -
  define u where "u = (if truthy uid then the uid else ''anonymous'')"
  define c where "c = snd (process_message ctxs kb m u menu (Some orders))"
  have c: "carts_ok c" unfolding c_def by (rule process_message_ok[OF assms])
  then have "carts_ok (c(u \<mapsto> (the (c u))\<lparr>cart := []\<rparr>))"
    by (auto simp: carts_ok_def cart_ok_def)
  moreover have "chat ctxs kb m uid menu orders = c \<or>
      chat ctxs kb m uid menu orders = c(u \<mapsto> (the (c u))\<lparr>cart := []\<rparr>)"
    by (simp add: chat_def Let_def u_def c_def split: prod.splits)
  ultimately show ?thesis using c by auto
qed

lemma reachable_carts_ok: "reachable ctxs \<Longrightarrow> carts_ok ctxs"
proof (induction rule: reachable.induct)
  case initial
  then show ?case by (simp add: carts_ok_def)
next
  case (message ctxs kb message user_id menu_items orders)
  then show ?case by (simp add: process_message_ok)
next
  case (chat_call ctxs kb message uid menu_data orders_data)
  then show ?case by (simp add: chat_ok)
qed

lemma add_to_cart_present:
  assumes "menu_item_id l = item_id itm" and "\<forall>x\<in>set pre. menu_item_id x \<noteq> item_id itm"
  shows "add_to_cart (pre @ l # post) itm q = pre @ l\<lparr>quantity := quantity l + q\<rparr> # post"
proof -
  have "find (\<lambda>i. menu_item_id i = item_id itm) (pre @ l # post) \<noteq> None"
    using assms(1) by (simp add: find_None_ids)
  then show ?thesis
    using bump_existing_decomp[OF assms] by (auto simp: add_to_cart_def)
qed

lemma add_to_cart_absent:
  assumes "\<forall>x\<in>set c. menu_item_id x \<noteq> item_id itm"
  shows "add_to_cart c itm q =
           c @ [\<lparr>menu_item_id = item_id itm, line_item = item itm, line_price = price itm, quantity = q\<rparr>]"
proof -
  have "find (\<lambda>i. menu_item_id i = item_id itm) c = None"
    using assms by (auto simp: find_None_ids)
  then show ?thesis by (simp add: add_to_cart_def)
qed

lemma process_message_order_intent:
  assumes "classify_intent m = ORDER_INTENT"
  shows "snd (process_message ctxs kb m uid menu orders) uid =
           Some ((fst (get_user_context ctxs uid))
                   \<lparr>last_intent := Some ORDER_INTENT,
                     cart := add_all (cart (fst (get_user_context ctxs uid)))
                               (extract_menu_items m menu) (extract_quantity m)\<rparr>)"
  by (simp add: process_message_unfold assms handle_def handle_order_intent_def Let_def)

lemma select_order_by_user:
  assumes "findall_digits m = []"
    and "filter (\<lambda>ord. py_str (customer_phone ord) = uid) os \<noteq> []"
  shows "select_order m uid os = Some (last (filter (\<lambda>ord. py_str (customer_phone ord) = uid) os))"
  using assms by (simp add: select_order_def search_order_id_def)

lemma track_order_by_user:
  assumes "classify_intent m = TRACK_ORDER" and "findall_digits m = []"
    and "filter (\<lambda>ord. py_str (customer_phone ord) = uid) os \<noteq> []"
  shows "data (fst (process_message ctxs kb m uid menu (Some os))) =
           Some (OrderStatus (last (filter (\<lambda>ord. py_str (customer_phone ord) = uid) os)))"
proof -
  have "os \<noteq> []" using assms(3) by auto
  then show ?thesis
    by (simp add: process_message_unfold assms(1) handle_def handle_track_order_def
          select_order_by_user[OF assms(2,3)])
qed

lemma track_my_order_intent: "classify_intent ''track my order'' = TRACK_ORDER" by code_simp
lemma track_my_order_no_digits: "findall_digits ''track my order'' = []" by code_simp
lemma both_orders_match_user: "filter (\<lambda>ord. py_str (customer_phone ord) = ''555'') [order_newer, order_older] = [order_newer, order_older]"
  by (simp add: order_newer_def order_older_def py_str_def)

text \<open>
  Claim C1 fails on the code.  The order list is given newest first, as the claim and
  the comment at \<open>orders[0]\<close> assume; both orders carry the caller's phone number and
  the message has no order identifier.  \<open>user_orders[-1]\<close> is then the order created
  first, and that order is returned, not the most recent one.
\<close>

theorem track_order_selects_oldest_match:
  "data (fst (process_message ctxs kb ''track my order'' ''555'' menu (Some [order_newer, order_older])))
     = Some (OrderStatus order_older) \<and>
   order_created_at order_newer = Some ''2024-05-02T10:00:00'' \<and>
   order_created_at order_older = Some ''2024-05-01T10:00:00''"
proof -
  have ne: "filter (\<lambda>ord. py_str (customer_phone ord) = ''555'') [order_newer, order_older] \<noteq> []"
    unfolding both_orders_match_user by simp
  have "data (fst (process_message ctxs kb ''track my order'' ''555'' menu (Some [order_newer, order_older])))
     = Some (OrderStatus (last (filter (\<lambda>ord. py_str (customer_phone ord) = ''555'')
                                  [order_newer, order_older])))"
    by (rule track_order_by_user[OF track_my_order_intent track_my_order_no_digits ne])
  then have "data (fst (process_message ctxs kb ''track my order'' ''555'' menu (Some [order_newer, order_older])))
     = Some (OrderStatus order_older)"
    unfolding both_orders_match_user by simp
  moreover have "order_created_at order_newer = Some ''2024-05-02T10:00:00''"
    by (simp add: order_newer_def)
  moreover have "order_created_at order_older = Some ''2024-05-01T10:00:00''"
    by (simp add: order_older_def)
  ultimately show ?thesis by simp
qed

lemma want_margherita_intent: "classify_intent ''i want margherita'' = ORDER_INTENT" by code_simp
lemma want_margherita_quantity: "extract_quantity ''i want margherita'' = 1" by code_simp
lemma want_margherita_items: "extract_menu_items ''i want margherita'' [margherita, pepperoni] = [margherita]" by code_simp
lemma want_zero_intent: "classify_intent ''i want 0 margherita'' = ORDER_INTENT" by code_simp
lemma want_zero_quantity: "extract_quantity ''i want 0 margherita'' = 0" by code_simp
lemma want_zero_items: "extract_menu_items ''i want 0 margherita'' [margherita, pepperoni] = [margherita]" by code_simp


lemma yes_intent: "classify_intent ''yes'' = CONFIRM_ORDER" by code_simp

theorem confirm_order_keeps_cart_witness:
  "classify_intent ''yes'' = CONFIRM_ORDER \<and>
   data (fst (process_message [''u1'' \<mapsto> session_with_cart] kb_three ''yes'' ''u1'' [] None)) =
     Some (Confirm (cart session_with_cart) 25.98 True) \<and>
   snd (process_message [''u1'' \<mapsto> session_with_cart] kb_three ''yes'' ''u1'' [] None) ''u1'' =
     Some (session_with_cart\<lparr>last_intent := Some CONFIRM_ORDER\<rparr>) \<and>
   fst (process_message Map.empty kb_three ''yes'' ''u1'' [] None) =
     \<lparr>response = CartEmpty, action = None, data = None\<rparr>"
proof -
  have g: "get_user_context [''u1'' \<mapsto> session_with_cart] ''u1'' =
             (session_with_cart, [''u1'' \<mapsto> session_with_cart])"
    by (rule get_user_context_present) simp
  have n: "cart session_with_cart \<noteq> []" by (simp add: session_with_cart_def)
  have t: "(\<Sum>i\<leftarrow>cart session_with_cart. line_price i * of_int (quantity i)) = 25.98"
    by (simp add: session_with_cart_def)
  have e: "cart (fst (get_user_context Map.empty ''u1'')) = []"
    by (simp add: get_user_context_def new_session_def)
  note w = confirm_order_keeps_cart[OF yes_intent, of "[''u1'' \<mapsto> session_with_cart]" kb_three "''u1''" "[]" None]
  note v = confirm_order_keeps_cart[OF yes_intent, of Map.empty kb_three "''u1''" "[]" None]
  have "data (fst (process_message [''u1'' \<mapsto> session_with_cart] kb_three ''yes'' ''u1'' [] None)) =
     Some (Confirm (cart session_with_cart) 25.98 True)"
    using w n unfolding g by (simp add: t)
  moreover have "snd (process_message [''u1'' \<mapsto> session_with_cart] kb_three ''yes'' ''u1'' [] None) ''u1'' =
     Some (session_with_cart\<lparr>last_intent := Some CONFIRM_ORDER\<rparr>)"
    using w by simp
  moreover have "fst (process_message Map.empty kb_three ''yes'' ''u1'' [] None) =
     \<lparr>response = CartEmpty, action = None, data = None\<rparr>"
    using v e by simp
  ultimately show ?thesis using yes_intent by simp
qed

lemma blah_intent: "classify_intent ''blah blah'' = UNKNOWN" by code_simp

theorem unknown_message_idempotent_witness:
  "classify_intent ''blah blah'' = UNKNOWN \<and>
   snd (process_message
          (snd (process_message [''u1'' \<mapsto> session_with_cart] kb_three ''blah blah'' ''u1'' [] None))
          kb_three ''blah blah'' ''u1'' [] None) =
     snd (process_message [''u1'' \<mapsto> session_with_cart] kb_three ''blah blah'' ''u1'' [] None) \<and>
   snd (process_message [''u1'' \<mapsto> session_with_cart] kb_three ''blah blah'' ''u1'' [] None) ''u1'' =
     Some (session_with_cart\<lparr>last_intent := Some UNKNOWN\<rparr>)"
proof -
  have g: "get_user_context [''u1'' \<mapsto> session_with_cart] ''u1'' =
             (session_with_cart, [''u1'' \<mapsto> session_with_cart])"
    by (rule get_user_context_present) simp
  have "snd (process_message [''u1'' \<mapsto> session_with_cart] kb_three ''blah blah'' ''u1'' [] None) ''u1'' =
     Some (session_with_cart\<lparr>last_intent := Some UNKNOWN\<rparr>)"
    by (simp add: process_message_unknown[OF blah_intent] g)
  then show ?thesis
    using blah_intent unknown_message_idempotent[OF blah_intent,
        of "[''u1'' \<mapsto> session_with_cart]" kb_three "''u1''" "[]" None kb_three "[]" None]
    by simp
qed

text \<open>
  Claim C5, as amended.  In every reachable session map, the lines of every cart have
  pairwise different item identifiers and every quantity is at least 0.  The
  \<open>ORDER_INTENT\<close> handler folds \<open>add_to_cart\<close> over the extracted items with the
  extracted quantity: for an item whose identifier is already in the cart the first
  line with that identifier gets its quantity incremented by that quantity and no line
  is appended; for an item not yet in the cart one line is appended.  Adding the same
  item twice to a cart that did not hold it yields one line, with the sum of the two
  quantities (2 for two single items).
\<close>

theorem cart_lines_unique:
  "(reachable ctxs \<and> ctxs uid = Some s \<longrightarrow>
      distinct (map menu_item_id (cart s)) \<and> (\<forall>l\<in>set (cart s). 0 \<le> quantity l)) \<and>
   (classify_intent m = ORDER_INTENT \<longrightarrow>
      snd (process_message ctxs kb m uid menu orders) uid =
        Some ((fst (get_user_context ctxs uid))
                \<lparr>last_intent := Some ORDER_INTENT,
                  cart := add_all (cart (fst (get_user_context ctxs uid)))
                            (extract_menu_items m menu) (extract_quantity m)\<rparr>)) \<and>
   (menu_item_id l = item_id itm \<and> (\<forall>x\<in>set pre. menu_item_id x \<noteq> item_id itm) \<longrightarrow>
      add_to_cart (pre @ l # post) itm q = pre @ l\<lparr>quantity := quantity l + q\<rparr> # post) \<and>
   ((\<forall>x\<in>set c. menu_item_id x \<noteq> item_id itm) \<longrightarrow>
      add_to_cart c itm q =
        c @ [\<lparr>menu_item_id = item_id itm, line_item = item itm, line_price = price itm,
               quantity = q\<rparr>] \<and>
      add_to_cart (add_to_cart c itm q) itm q' =
        c @ [\<lparr>menu_item_id = item_id itm, line_item = item itm, line_price = price itm,
               quantity = q + q'\<rparr>])"
proof -
  have a: "reachable ctxs \<and> ctxs uid = Some s \<longrightarrow>
      distinct (map menu_item_id (cart s)) \<and> (\<forall>l\<in>set (cart s). 0 \<le> quantity l)"
    using reachable_carts_ok[of ctxs] by (auto simp: carts_ok_def cart_ok_def)
  have b: "classify_intent m = ORDER_INTENT \<longrightarrow>
      snd (process_message ctxs kb m uid menu orders) uid =
        Some ((fst (get_user_context ctxs uid))
                \<lparr>last_intent := Some ORDER_INTENT,
                  cart := add_all (cart (fst (get_user_context ctxs uid)))
                            (extract_menu_items m menu) (extract_quantity m)\<rparr>)"
    using process_message_order_intent by blast
  have c: "menu_item_id l = item_id itm \<and> (\<forall>x\<in>set pre. menu_item_id x \<noteq> item_id itm) \<longrightarrow>
      add_to_cart (pre @ l # post) itm q = pre @ l\<lparr>quantity := quantity l + q\<rparr> # post"
    using add_to_cart_present by blast
  have d: "add_to_cart c itm q =
        c @ [\<lparr>menu_item_id = item_id itm, line_item = item itm, line_price = price itm,
               quantity = q\<rparr>] \<and>
      add_to_cart (add_to_cart c itm q) itm q' =
        c @ [\<lparr>menu_item_id = item_id itm, line_item = item itm, line_price = price itm,
               quantity = q + q'\<rparr>]"
    if n: "\<forall>x\<in>set c. menu_item_id x \<noteq> item_id itm"
  proof -
    let ?l = "\<lparr>menu_item_id = item_id itm, line_item = item itm, line_price = price itm, quantity = q\<rparr>"
    have one: "add_to_cart c itm q = c @ [?l]" by (rule add_to_cart_absent[OF n])
    have "add_to_cart (c @ ?l # []) itm q' = c @ ?l\<lparr>quantity := quantity ?l + q'\<rparr> # []"
      by (rule add_to_cart_present) (simp_all add: n)
    with one show ?thesis by simp
  qed
  from a b c d show ?thesis by blast
qed

theorem cart_lines_unique_witness:
  "reachable
     (snd (process_message
        (snd (process_message Map.empty kb_three ''i want margherita'' ''u1'' [margherita, pepperoni] None))
        kb_three ''i want margherita'' ''u1'' [margherita, pepperoni] None)) \<and>
   map_option cart
     (snd (process_message
        (snd (process_message Map.empty kb_three ''i want margherita'' ''u1'' [margherita, pepperoni] None))
        kb_three ''i want margherita'' ''u1'' [margherita, pepperoni] None) ''u1'') =
     Some [\<lparr>menu_item_id = 1, line_item = ''Margherita Pizza'', line_price = 12.99, quantity = 2\<rparr>] \<and>
   (\<exists>s. snd (process_message
        (snd (process_message Map.empty kb_three ''i want margherita'' ''u1'' [margherita, pepperoni] None))
        kb_three ''i want margherita'' ''u1'' [margherita, pepperoni] None) ''u1'' = Some s \<and>
      distinct (map menu_item_id (cart s)) \<and> list_all (\<lambda>l. 0 \<le> quantity l) (cart s))"
proof -
  let ?menu = "[margherita, pepperoni]"
  let ?c1 = "snd (process_message Map.empty kb_three ''i want margherita'' ''u1'' ?menu None)"
  let ?c2 = "snd (process_message ?c1 kb_three ''i want margherita'' ''u1'' ?menu None)"
  let ?a1 = "add_to_cart [] margherita 1"
  let ?a2 = "add_to_cart ?a1 margherita 1"
  have step: "snd (process_message ctxs kb_three ''i want margherita'' ''u1'' ?menu None) ''u1'' =
        Some ((fst (get_user_context ctxs ''u1''))
                \<lparr>last_intent := Some ORDER_INTENT,
                  cart := add_all (cart (fst (get_user_context ctxs ''u1''))) [margherita] 1\<rparr>)"
    for ctxs
    using cart_lines_unique[where m = "''i want margherita''" and uid = "''u1''" and kb = kb_three
      and menu = ?menu and orders = None and ctxs = ctxs, THEN conjunct2, THEN conjunct1] want_margherita_intent
    unfolding want_margherita_quantity want_margherita_items by blast
  have twice: "?a2 =
      [\<lparr>menu_item_id = item_id margherita, line_item = item margherita,
         line_price = price margherita, quantity = 1 + 1\<rparr>]"
  proof -
    have "\<forall>x\<in>set ([]::cart_line list). menu_item_id x \<noteq> item_id margherita" by simp
    from cart_lines_unique[where itm = margherita and c = "[]" and q = 1 and q' = 1,
        THEN conjunct2, THEN conjunct2, THEN conjunct2, THEN mp, OF this]
    have "?a2 =
      [] @ [\<lparr>menu_item_id = item_id margherita, line_item = item margherita,
         line_price = price margherita, quantity = 1 + 1\<rparr>]"
      by (rule conjunct2)
    then show ?thesis by (simp only: append_Nil)
  qed
  have g0: "get_user_context Map.empty ''u1'' = (new_session, [''u1'' \<mapsto> new_session])"
    by (simp add: get_user_context_def)
  have s1: "?c1 ''u1'' = Some (new_session\<lparr>last_intent := Some ORDER_INTENT, cart := ?a1\<rparr>)"
    unfolding step g0 by (simp add: new_session_def)
  have g1: "get_user_context ?c1 ''u1'' =
      (new_session\<lparr>last_intent := Some ORDER_INTENT, cart := ?a1\<rparr>, ?c1)"
    using s1 by (rule get_user_context_present[of ?c1 "''u1''"])
  have s2: "?c2 ''u1'' = Some (new_session\<lparr>last_intent := Some ORDER_INTENT, cart := ?a2\<rparr>)"
    unfolding step[of ?c1] g1 by simp
  then have "map_option cart (?c2 ''u1'') = Some ?a2" by simp
  also have "?a2 = [\<lparr>menu_item_id = 1, line_item = ''Margherita Pizza'', line_price = 12.99, quantity = 2\<rparr>]"
    unfolding twice by (simp add: margherita_def)
  finally have r: "map_option cart (?c2 ''u1'') =
      Some [\<lparr>menu_item_id = 1, line_item = ''Margherita Pizza'', line_price = 12.99, quantity = 2\<rparr>]" .
  have reach: "reachable ?c2" by (intro reachable.message reachable.initial)
  from cart_lines_unique[where ctxs = ?c2 and uid = "''u1''"
      and s = "new_session\<lparr>last_intent := Some ORDER_INTENT, cart := ?a2\<rparr>", THEN conjunct1]
    reach s2
  have "distinct (map menu_item_id ?a2) \<and> (\<forall>l\<in>set ?a2. 0 \<le> quantity l)" by simp
  then have inv: "\<exists>s. ?c2 ''u1'' = Some s \<and> distinct (map menu_item_id (cart s)) \<and>
      list_all (\<lambda>l. 0 \<le> quantity l) (cart s)"
    using s2 by (simp add: list_all_iff)
  from reach r inv show ?thesis by blast
qed

text \<open>
  The bound \<open>quantity \<ge> 1\<close> of claim C5 as stated fails: the message
  \<open>i want 0 margherita\<close> is an order intent with extracted quantity 0 and leaves a
  cart line of quantity 0 in a reachable session.
\<close>

theorem cart_line_with_quantity_zero:
  "reachable (snd (process_message Map.empty kb_three ''i want 0 margherita'' ''u1'' [margherita, pepperoni] None)) \<and>
   map_option (map quantity \<circ> cart)
     (snd (process_message Map.empty kb_three ''i want 0 margherita'' ''u1'' [margherita, pepperoni] None) ''u1'') =
     Some [0]"
proof -
  have g0: "get_user_context Map.empty ''u1'' = (new_session, [''u1'' \<mapsto> new_session])"
    by (simp add: get_user_context_def)
  have "snd (process_message Map.empty kb_three ''i want 0 margherita'' ''u1'' [margherita, pepperoni] None) ''u1'' =
     Some (new_session\<lparr>last_intent := Some ORDER_INTENT, cart := add_all [] [margherita] 0\<rparr>)"
    by (simp add: process_message_order_intent[OF want_zero_intent] g0 want_zero_quantity want_zero_items new_session_def)
  moreover have "map quantity (add_all [] [margherita] 0) = [0]"
    by (simp add: add_to_cart_def)
  moreover have "reachable (snd (process_message Map.empty kb_three ''i want 0 margherita'' ''u1'' [margherita, pepperoni] None))"
    by (intro reachable.message reachable.initial)
  ultimately show ?thesis by simp
qed

end
